theory Spec2Isabelle
  imports Complex_Main "HOL-Library.Multiset"
begin

section \<open>Data model\<close>

text \<open>
  The relational rows of the quiz application, after the tables of the migration
  (\<open>exams\<close>, \<open>questions\<close>, \<open>responses\<close>, \<open>answers\<close>). Identifiers are the
  TEXT primary keys, integers are the INTEGER columns, nullable columns are options and
  timestamps are natural numbers. The \<open>type\<close> column holds one of the four literals
  of the route validator and of the client's \<open>Question\<close> interface. The two timestamp
  columns of \<open>exams\<close> are read by none of the handlers below and are left out.
\<close>

datatype question_type = MULTIPLE_CHOICE | TRUE_FALSE | SHORT_ANSWER | ESSAY

record exam =
  e_id :: string
  e_title :: string
  e_description :: "string option"
  e_timeLimit :: "int option"
  e_shareLink :: string
  e_isActive :: bool
  e_authorId :: string

record question =
  q_id :: string
  q_type :: question_type
  q_question :: string
  q_options :: "string option"
  q_correctAnswer :: "string option"
  q_points :: int
  q_order :: int
  q_examId :: string

record response_row =
  r_id :: string
  r_studentName :: "string option"
  r_studentEmail :: "string option"
  r_score :: "int option"
  r_totalPoints :: int
  r_submittedAt :: nat
  r_examId :: string

record answer_row =
  a_id :: string
  a_answer :: string
  a_questionId :: string
  a_responseId :: string

record db =
  db_exams :: "exam list"
  db_questions :: "question list"
  db_responses :: "response_row list"
  db_answers :: "answer_row list"

text \<open>
  What a handler sends on a failure path: the HTTP status and the \<open>message\<close> of the
  \<open>{success: false, message}\<close> body.
\<close>

record http_error =
  status :: nat
  message :: string

text \<open>One element of the \<open>answers\<close> array of a submission body.\<close>

record submitted_answer =
  sa_questionId :: string
  sa_answer :: string

text \<open>One element of \<open>processedAnswers\<close>, as pushed by the grading loop.\<close>

record processed_answer =
  pa_questionId :: string
  pa_answer :: string
  pa_isCorrect :: bool

text \<open>The three mutable locals of the grading loop of \<open>submitResponse\<close>.\<close>

record grading =
  score :: int
  totalPoints :: int
  processedAnswers :: "processed_answer list"

section \<open>The grading loop of submitResponse\<close>

text \<open>JavaScript truthiness of a nullable string: \<open>null\<close> and the empty string are falsy.\<close>

definition truthy :: "string option \<Rightarrow> bool" where
  "truthy v = (case v of None \<Rightarrow> False | Some s \<Rightarrow> s \<noteq> [])"

text \<open>\<open>answers.find(a => a.questionId === question.id)\<close>: the first match, if any.\<close>

definition findAnswer :: "submitted_answer list \<Rightarrow> question \<Rightarrow> submitted_answer option" where
  "findAnswer answers question = find (\<lambda>a. sa_questionId a = q_id question) answers"

text \<open>
  The body of \<open>if (studentAnswer)\<close> up to the push: the correctness flag and the
  score after this question, from the score before it. Only the two auto-graded types can
  set the flag, and only when the stored correct answer is truthy and strictly equal to
  the submitted text; the short-answer and essay branch is empty.
\<close>

definition gradeAnswer :: "question \<Rightarrow> submitted_answer \<Rightarrow> int \<Rightarrow> bool \<times> int" where
  "gradeAnswer question studentAnswer sc =
     (if q_type question = MULTIPLE_CHOICE \<or> q_type question = TRUE_FALSE then
        (if truthy (q_correctAnswer question) \<and>
            Some (sa_answer studentAnswer) = q_correctAnswer question
         then (True, sc + q_points question)
         else (False, sc))
      else if q_type question = SHORT_ANSWER \<or> q_type question = ESSAY then (False, sc)
      else (False, sc))"

text \<open>One iteration of \<open>for (const question of exam.questions)\<close>.\<close>

definition gradeStep :: "submitted_answer list \<Rightarrow> grading \<Rightarrow> question \<Rightarrow> grading" where
  "gradeStep answers st question =
     (let st1 = st\<lparr>totalPoints := totalPoints st + q_points question\<rparr> in
      case findAnswer answers question of
        None \<Rightarrow> st1
      | Some studentAnswer \<Rightarrow>
          (case gradeAnswer question studentAnswer (score st1) of
             (isCorrect, sc) \<Rightarrow>
               st1\<lparr>score := sc,
                   processedAnswers := processedAnswers st1 @
                     [\<lparr>pa_questionId = q_id question,
                       pa_answer = sa_answer studentAnswer,
                       pa_isCorrect = isCorrect\<rparr>]\<rparr>))"

definition gradeInit :: grading where
  "gradeInit = \<lparr>score = 0, totalPoints = 0, processedAnswers = []\<rparr>"

definition grade :: "submitted_answer list \<Rightarrow> question list \<Rightarrow> grading" where
  "grade answers questions = foldl (gradeStep answers) gradeInit questions"

section \<open>The percentage of the submission result\<close>

text \<open>
  \<open>Math.round((score / totalPoints) * 100)\<close> is computed on JavaScript Numbers, that is
  IEEE 754 binary64 values: the quotient is rounded to the nearest double (ties to even),
  the product with 100 is rounded again, and \<open>Math.round\<close> takes the nearest integer with
  ties towards plus infinity. A finite double is modelled exactly as a pair of integers
  \<open>Double m e\<close> of value \<open>m * 2 ^ e\<close>. Exponent overflow and subnormal numbers are not
  modelled: the integers that reach this expression are database INTEGER values, whose
  quotients and products lie far inside the normal range.
\<close>

datatype double = Double int int

text \<open>The number of binary digits of a positive integer.\<close>

function bitLength :: "int \<Rightarrow> nat" where
  "bitLength n = (if n \<le> 0 then 0 else Suc (bitLength (n div 2)))"
  by pat_completeness auto
termination
  by (relation "measure nat") auto

declare bitLength.simps [simp del]

text \<open>\<open>scaledLe e b a\<close> decides \<open>2 ^ e * b \<le> a\<close> for an integer exponent of either sign.\<close>

definition scaledLe :: "int \<Rightarrow> int \<Rightarrow> int \<Rightarrow> bool" where
  "scaledLe e b a = (if 0 \<le> e then 2 ^ nat e * b \<le> a else b \<le> 2 ^ nat (- e) * a)"

text \<open>The binary exponent of \<open>a / b\<close> for positive \<open>a\<close> and \<open>b\<close>: the floor of its logarithm.\<close>

definition binaryExponent :: "int \<Rightarrow> int \<Rightarrow> int" where
  "binaryExponent a b =
     (let e0 = int (bitLength a) - int (bitLength b)
      in if scaledLe e0 b a then e0 else e0 - 1)"

text \<open>The integer nearest to \<open>a / b\<close> for positive \<open>b\<close>, a tie going to the even neighbour.\<close>

definition divRoundEven :: "int \<Rightarrow> int \<Rightarrow> int" where
  "divRoundEven a b =
     (let n = a div b; r = a mod b
      in if 2 * r < b then n else if b < 2 * r then n + 1 else if even n then n else n + 1)"

text \<open>
  The double nearest to \<open>a / b * 2 ^ k\<close> for positive \<open>b\<close>: a significand of 53 bits,
  rounded to nearest, ties to even.
\<close>

definition roundScaled :: "int \<Rightarrow> int \<Rightarrow> int \<Rightarrow> double" where
  "roundScaled a b k =
     (if a = 0 then Double 0 0
      else
        let s = binaryExponent \<bar>a\<bar> b - 52;
            m = (if 0 \<le> s then divRoundEven \<bar>a\<bar> (b * 2 ^ nat s)
                 else divRoundEven (\<bar>a\<bar> * 2 ^ nat (- s)) b)
        in Double (sgn a * m) (s + k))"

text \<open>An integer below \<open>2 ^ 53\<close> in magnitude is a Number exactly.\<close>

fun numberOfInt :: "int \<Rightarrow> double" where
  "numberOfInt n = Double n 0"

text \<open>The operators \<open>/\<close> (for a positive divisor) and \<open>*\<close> on Numbers.\<close>

fun divide_double :: "double \<Rightarrow> double \<Rightarrow> double" where
  "divide_double (Double m1 e1) (Double m2 e2) = roundScaled m1 m2 (e1 - e2)"

fun multiply_double :: "double \<Rightarrow> double \<Rightarrow> double" where
  "multiply_double (Double m1 e1) (Double m2 e2) = roundScaled (m1 * m2) 1 (e1 + e2)"

text \<open>\<open>Math.round\<close>: the floor of the value plus one half.\<close>

fun mathRound :: "double \<Rightarrow> int" where
  "mathRound (Double m e) =
     (if 0 \<le> e then m * 2 ^ nat e else (2 * m + 2 ^ nat (- e)) div 2 ^ (nat (- e) + 1))"

text \<open>
  \<open>totalPoints > 0 ? Math.round((score / totalPoints) * 100) : 0\<close>, with \<open>s\<close> for
  the score and \<open>t\<close> for the total.
\<close>

definition percentage :: "int \<Rightarrow> int \<Rightarrow> int" where
  "percentage s t =
     (if t > 0
      then mathRound (multiply_double (divide_double (numberOfInt s) (numberOfInt t))
                        (numberOfInt 100))
      else 0)"

text \<open>The real number a double stands for.\<close>

fun dval :: "double \<Rightarrow> real" where
  "dval (Double m e) = of_int m * 2 powi e"

section \<open>Request validation of the response routes\<close>

text \<open>
  The validation chains of the response router run before the handler; each sanitizer of
  a chain replaces the field of the request body by its result, and each failed validator
  adds an error that \<open>validationResult\<close> reports. The \<open>trim\<close> sanitizer strips from both
  ends of a string the characters that JavaScript's \<open>\s\<close> matches.

  A character of a string is here a code unit below 256, \<open>CHR n\<close> standing for the code
  point \<open>n\<close>; text with other code units is not part of the model. Among these code
  units \<open>\s\<close> matches the tab, the line feed, the vertical tab, the form feed, the
  carriage return, the space and the no-break space \<open>CHR 0xA0\<close>, and the length that
  \<open>isLength\<close> measures is the number of code units.
\<close>

definition isSpace :: "char \<Rightarrow> bool" where
  "isSpace c =
     (c = CHR 0x09 \<or> c = CHR 0x0A \<or> c = CHR 0x0B \<or> c = CHR 0x0C \<or> c = CHR 0x0D \<or>
      c = CHR 0x20 \<or> c = CHR 0xA0)"

definition trim :: "string \<Rightarrow> string" where
  "trim s = rev (dropWhile isSpace (rev (dropWhile isSpace s)))"

text \<open>The body of a submission: \<open>{studentName?, studentEmail?, answers}\<close>.\<close>

record submit_body =
  b_studentName :: "string option"
  b_studentEmail :: "string option"
  b_answers :: "submitted_answer list"

text \<open>
  \<open>submitResponseValidation\<close>: the errors of the five chains, in their order, and the body
  as the sanitizers leave it. The two e-mail functions of the validator library are
  parameters.
\<close>

definition submitResponseValidation ::
  "(string \<Rightarrow> bool) \<Rightarrow> (string \<Rightarrow> string) \<Rightarrow> submit_body \<Rightarrow> string list \<times> submit_body" where
  "submitResponseValidation isEmail normalizeEmail body =
     (let studentName = map_option trim (b_studentName body);
          studentEmail = map_option normalizeEmail (b_studentEmail body);
          trimmed = map (\<lambda>a. a\<lparr>sa_answer := trim (sa_answer a)\<rparr>) (b_answers body);
          errors =
            (case studentName of
               None \<Rightarrow> []
             | Some n \<Rightarrow>
                 if 1 \<le> length n \<and> length n \<le> 100 then []
                 else [''Student name must be less than 100 characters'']) @
            (case b_studentEmail body of
               None \<Rightarrow> []
             | Some e \<Rightarrow> if isEmail e then [] else [''Please provide a valid email'']) @
            (if 1 \<le> length (b_answers body) then []
             else [''Answers are required and must be an array'']) @
            concat (map (\<lambda>a. if 1 \<le> length (sa_questionId a) then []
                               else [''Question ID is required for each answer''])
                      (b_answers body)) @
            concat (map (\<lambda>a. if 1 \<le> length (sa_answer a) then [] else [''Answer is required''])
                      trimmed)
      in (errors,
          \<lparr>b_studentName = studentName, b_studentEmail = studentEmail, b_answers = trimmed\<rparr>))"

definition shareLinkValidation :: "string \<Rightarrow> string list" where
  "shareLinkValidation shareLink =
     (if 1 \<le> length shareLink then [] else [''Valid share link is required''])"

definition responseIdValidation :: "string \<Rightarrow> string list" where
  "responseIdValidation responseId =
     (if 1 \<le> length responseId then [] else [''Valid response ID is required''])"

definition updateScoreValidation :: "int \<Rightarrow> string list" where
  "updateScoreValidation sc =
     (if 0 \<le> sc then [] else [''Score must be a non-negative integer''])"

section \<open>Queries and the results they return\<close>

text \<open>
  The \<open>select\<close> of a question joined to an answer; the submission handler selects the
  correct answer as well, the score update does not.
\<close>

record question_select =
  qs_id :: string
  qs_question :: string
  qs_type :: question_type
  qs_correctAnswer :: "string option"
  qs_points :: int

record question_brief =
  qb_id :: string
  qb_question :: string
  qb_type :: question_type
  qb_points :: int

text \<open>
  An answer row with its question, and a response row with its answers, as the
  \<open>include\<close> of a query returns them; \<open>'q\<close> is the selection of the question.
\<close>

record 'q answer_included =
  ai_id :: string
  ai_answer :: string
  ai_questionId :: string
  ai_responseId :: string
  ai_question :: "'q option"

record 'q response_included =
  ri_id :: string
  ri_studentName :: "string option"
  ri_studentEmail :: "string option"
  ri_score :: "int option"
  ri_totalPoints :: int
  ri_submittedAt :: nat
  ri_examId :: string
  ri_answers :: "'q answer_included list"

definition questionSelect :: "question \<Rightarrow> question_select" where
  "questionSelect q =
     \<lparr>qs_id = q_id q, qs_question = q_question q, qs_type = q_type q,
      qs_correctAnswer = q_correctAnswer q, qs_points = q_points q\<rparr>"

definition questionBrief :: "question \<Rightarrow> question_brief" where
  "questionBrief q =
     \<lparr>qb_id = q_id q, qb_question = q_question q, qb_type = q_type q, qb_points = q_points q\<rparr>"

definition answerIncluded :: "(question \<Rightarrow> 'q) \<Rightarrow> db \<Rightarrow> answer_row \<Rightarrow> 'q answer_included" where
  "answerIncluded sel d a =
     \<lparr>ai_id = a_id a, ai_answer = a_answer a, ai_questionId = a_questionId a,
      ai_responseId = a_responseId a,
      ai_question = map_option sel (find (\<lambda>q. q_id q = a_questionId a) (db_questions d))\<rparr>"

definition responseIncluded :: "(question \<Rightarrow> 'q) \<Rightarrow> db \<Rightarrow> response_row \<Rightarrow> 'q response_included" where
  "responseIncluded sel d r =
     \<lparr>ri_id = r_id r, ri_studentName = r_studentName r, ri_studentEmail = r_studentEmail r,
      ri_score = r_score r, ri_totalPoints = r_totalPoints r, ri_submittedAt = r_submittedAt r,
      ri_examId = r_examId r,
      ri_answers = map (answerIncluded sel d)
                     (filter (\<lambda>a. a_responseId a = r_id r) (db_answers d))\<rparr>"

text \<open>\<open>prisma.response.findUnique({where: {id}, include: {answers: {include: {question}}}})\<close>\<close>

definition findResponseIncluded ::
  "(question \<Rightarrow> 'q) \<Rightarrow> db \<Rightarrow> string \<Rightarrow> 'q response_included option" where
  "findResponseIncluded sel d responseId =
     map_option (responseIncluded sel d) (find (\<lambda>r. r_id r = responseId) (db_responses d))"

text \<open>
  \<open>prisma.exam.findUnique({where: {shareLink, isActive: true}, include: {questions:
  {orderBy: {order: 'asc'}}}})\<close>: the exam, and its questions in ascending \<open>order\<close>.
\<close>

definition findActiveExam :: "db \<Rightarrow> string \<Rightarrow> exam option" where
  "findActiveExam d shareLink =
     find (\<lambda>e. e_shareLink e = shareLink \<and> e_isActive e) (db_exams d)"

definition examQuestions :: "db \<Rightarrow> exam \<Rightarrow> question list" where
  "examQuestions d ex =
     sort_key q_order (filter (\<lambda>q. q_examId q = e_id ex) (db_questions d))"

text \<open>
  The two writes of the transaction. Both tables have a primary key on \<open>id\<close>: a write
  that repeats an identifier fails, and the transaction with it.
\<close>

definition createResponse :: "db \<Rightarrow> response_row \<Rightarrow> db option" where
  "createResponse d row =
     (if r_id row \<in> set (map r_id (db_responses d)) then None
      else Some (d\<lparr>db_responses := db_responses d @ [row]\<rparr>))"

definition createManyAnswers :: "db \<Rightarrow> answer_row list \<Rightarrow> db option" where
  "createManyAnswers d rows =
     (if distinct (map a_id rows) \<and> set (map a_id rows) \<inter> set (map a_id (db_answers d)) = {}
      then Some (d\<lparr>db_answers := db_answers d @ rows\<rparr>)
      else None)"

section \<open>The handler submitResponse\<close>

text \<open>
  \<open>processedAnswers.map(a => ({questionId, answer, responseId}))\<close>, each row with the
  identifier the database gives it (\<open>newAnswerId i\<close> for the \<open>i\<close>-th row).
\<close>

definition answersData :: "(nat \<Rightarrow> string) \<Rightarrow> string \<Rightarrow> processed_answer list \<Rightarrow> answer_row list" where
  "answersData newAnswerId responseId pas =
     map (\<lambda>(i, a). \<lparr>a_id = newAnswerId i, a_answer = pa_answer a,
                     a_questionId = pa_questionId a, a_responseId = responseId\<rparr>)
       (enumerate 0 pas)"

text \<open>The \<open>data\<close> of the 201 reply.\<close>

record submit_result =
  sr_response :: "question_select response_included option"
  sr_score :: int
  sr_totalPoints :: int
  sr_percentage :: int

text \<open>
  The handler, on the database \<open>d\<close>. The request is the share link, the validation errors
  and the sanitized body; \<open>newResponseId\<close>, \<open>newAnswerId\<close> and \<open>now\<close> are the identifiers and
  the timestamp the database generates. The result is the database afterwards and the
  reply: an error, or the data of the 201 reply. A failed transaction leaves the database
  as it was and is answered from the \<open>catch\<close> block.
\<close>

definition submitResponse ::
  "db \<Rightarrow> string \<Rightarrow> (nat \<Rightarrow> string) \<Rightarrow> nat \<Rightarrow> string \<Rightarrow> string list \<times> submit_body \<Rightarrow>
     db \<times> (http_error + submit_result)" where
  "submitResponse d newResponseId newAnswerId now shareLink req =
     (case req of (errors, body) \<Rightarrow>
      if errors \<noteq> [] then (d, Inl \<lparr>status = 400, message = ''Validation failed''\<rparr>)
      else
        case findActiveExam d shareLink of
          None \<Rightarrow> (d, Inl \<lparr>status = 404, message = ''Exam not found or inactive''\<rparr>)
        | Some ex \<Rightarrow>
            (let g = grade (b_answers body) (examQuestions d ex);
                 newResponse =
                   \<lparr>r_id = newResponseId, r_studentName = b_studentName body,
                    r_studentEmail = b_studentEmail body, r_score = Some (score g),
                    r_totalPoints = totalPoints g, r_submittedAt = now, r_examId = e_id ex\<rparr>;
                 transaction =
                   (case createResponse d newResponse of
                      None \<Rightarrow> None
                    | Some d1 \<Rightarrow>
                        if length (processedAnswers g) > 0
                        then createManyAnswers d1
                               (answersData newAnswerId newResponseId (processedAnswers g))
                        else Some d1)
             in case transaction of
                  None \<Rightarrow> (d, Inl \<lparr>status = 500, message = ''Internal server error''\<rparr>)
                | Some d2 \<Rightarrow>
                    (d2, Inr \<lparr>sr_response = findResponseIncluded questionSelect d2 newResponseId,
                              sr_score = score g,
                              sr_totalPoints = totalPoints g,
                              sr_percentage = percentage (score g) (totalPoints g)\<rparr>)))"

text \<open>
  The route \<open>POST /submit/:shareLink\<close>: the share-link chain, the body chains, then the
  handler.
\<close>

definition submitRoute ::
  "(string \<Rightarrow> bool) \<Rightarrow> (string \<Rightarrow> string) \<Rightarrow> db \<Rightarrow> string \<Rightarrow> (nat \<Rightarrow> string) \<Rightarrow> nat \<Rightarrow>
     string \<Rightarrow> submit_body \<Rightarrow> db \<times> (http_error + submit_result)" where
  "submitRoute isEmail normalizeEmail d newResponseId newAnswerId now shareLink body =
     (case submitResponseValidation isEmail normalizeEmail body of
        (errors, sanitized) \<Rightarrow>
          submitResponse d newResponseId newAnswerId now shareLink
            (shareLinkValidation shareLink @ errors, sanitized))"

section \<open>The handler updateResponseScore\<close>

text \<open>
  The handler reads \<open>score\<close> from the body and never consults \<open>validationResult\<close>, so the
  errors of the route's chains do not reach its control flow. \<open>authorId\<close> is the
  authenticated user. A response whose exam row is missing makes \<open>response.exam.authorId\<close>
  throw, which the \<open>catch\<close> block answers. \<open>prisma.response.update\<close> writes the
  \<open>score\<close> column of the row with that identifier and returns the row with its answers.
\<close>

definition updateResponseScore ::
  "db \<Rightarrow> string \<Rightarrow> string \<Rightarrow> string list \<times> int \<Rightarrow>
     db \<times> (http_error + question_brief response_included)" where
  "updateResponseScore d authorId responseId req =
     (case req of (errors, newScore) \<Rightarrow>
      case find (\<lambda>r. r_id r = responseId) (db_responses d) of
        None \<Rightarrow> (d, Inl \<lparr>status = 404, message = ''Response not found''\<rparr>)
      | Some response \<Rightarrow>
          (case find (\<lambda>e. e_id e = r_examId response) (db_exams d) of
             None \<Rightarrow> (d, Inl \<lparr>status = 500, message = ''Internal server error''\<rparr>)
           | Some ex \<Rightarrow>
               if e_authorId ex \<noteq> authorId
               then (d, Inl \<lparr>status = 404, message = ''Response not found''\<rparr>)
               else
                 (let d' = d\<lparr>db_responses :=
                              map (\<lambda>r. if r_id r = responseId then r\<lparr>r_score := Some newScore\<rparr> else r)
                                (db_responses d)\<rparr>;
                      updatedResponse =
                        responseIncluded questionBrief d' (response\<lparr>r_score := Some newScore\<rparr>)
                  in (d', Inr updatedResponse))))"

text \<open>The route \<open>PUT /:responseId/score\<close> for an authenticated user.\<close>

definition updateScoreRoute ::
  "db \<Rightarrow> string \<Rightarrow> string \<Rightarrow> int \<Rightarrow> db \<times> (http_error + question_brief response_included)" where
  "updateScoreRoute d authorId responseId newScore =
     updateResponseScore d authorId responseId
       (responseIdValidation responseId @ updateScoreValidation newScore, newScore)"

text \<open>
  The kinds of failure a reply stands for, by its status: 400 for a rejected request, 404
  for something not found, 401 and 403 for a caller who is not allowed, anything else for
  an internal failure.
\<close>

datatype error_kind = Validation | NotFound | Authorization | Internal

definition errorKind :: "http_error \<Rightarrow> error_kind" where
  "errorKind e =
     (if status e = 400 then Validation
      else if status e = 404 then NotFound
      else if status e = 401 \<or> status e = 403 then Authorization
      else Internal)"

section \<open>The questions createExam stores\<close>

text \<open>
  The only write to the \<open>questions\<close> table is the \<open>createMany\<close> of \<open>createExam\<close>, after
  the chain \<open>questions.*.points\<close> (optional, an integer from 1 to 100) of the exam
  router. A question of the request body, and the rows built from the body:
  \<open>options || null\<close>, \<open>correctAnswer || null\<close>, \<open>points || 1\<close> and \<open>order: index + 1\<close>.
\<close>

record question_input =
  qi_type :: question_type
  qi_question :: string
  qi_options :: "string option"
  qi_correctAnswer :: "string option"
  qi_points :: "int option"

definition pointsValidation :: "question_input list \<Rightarrow> string list" where
  "pointsValidation qs =
     concat (map (\<lambda>q. case qi_points q of
                          None \<Rightarrow> []
                        | Some p \<Rightarrow> if 1 \<le> p \<and> p \<le> 100 then []
                                    else [''Points must be between 1 and 100'']) qs)"

definition orNull :: "string option \<Rightarrow> string option" where
  "orNull v = (if truthy v then v else None)"

definition questionsData :: "(nat \<Rightarrow> string) \<Rightarrow> string \<Rightarrow> question_input list \<Rightarrow> question list" where
  "questionsData newQuestionId examId qs =
     map (\<lambda>(index, q).
            \<lparr>q_id = newQuestionId index, q_type = qi_type q, q_question = qi_question q,
             q_options = orNull (qi_options q),
             q_correctAnswer = orNull (qi_correctAnswer q),
             q_points = (case qi_points q of None \<Rightarrow> 1 | Some p \<Rightarrow> if p = 0 then 1 else p),
             q_order = int index + 1, q_examId = examId\<rparr>)
       (enumerate 0 qs)"

section \<open>The reply as JSON\<close>

text \<open>
  \<open>res.json\<close> writes a query result as a JSON object with one member per column of the
  row and one per included relation. Only the elements of \<open>data.response.answers\<close> of the
  submission reply are rendered here.
\<close>

datatype json =
  JNull | JBool bool | JNumber int | JString string | JArray "json list"
  | JObject "(string \<times> json) list"

fun typeName :: "question_type \<Rightarrow> string" where
  "typeName MULTIPLE_CHOICE = ''MULTIPLE_CHOICE''"
| "typeName TRUE_FALSE = ''TRUE_FALSE''"
| "typeName SHORT_ANSWER = ''SHORT_ANSWER''"
| "typeName ESSAY = ''ESSAY''"

definition nullableString :: "string option \<Rightarrow> json" where
  "nullableString v = (case v of None \<Rightarrow> JNull | Some s \<Rightarrow> JString s)"

definition questionSelectJson :: "question_select \<Rightarrow> json" where
  "questionSelectJson q =
     JObject [(''id'', JString (qs_id q)), (''question'', JString (qs_question q)),
              (''type'', JString (typeName (qs_type q))),
              (''correctAnswer'', nullableString (qs_correctAnswer q)),
              (''points'', JNumber (qs_points q))]"

definition answerJson :: "question_select answer_included \<Rightarrow> json" where
  "answerJson a =
     JObject [(''id'', JString (ai_id a)), (''answer'', JString (ai_answer a)),
              (''questionId'', JString (ai_questionId a)),
              (''responseId'', JString (ai_responseId a)),
              (''question'', (case ai_question a of None \<Rightarrow> JNull
                               | Some q \<Rightarrow> questionSelectJson q))]"

text \<open>The member of a JSON object under a key, and the keys of an object.\<close>

definition jsonField :: "string \<Rightarrow> json \<Rightarrow> json option" where
  "jsonField k j = (case j of JObject members \<Rightarrow> map_of members k | _ \<Rightarrow> None)"

definition jsonKeys :: "json \<Rightarrow> string list" where
  "jsonKeys j = (case j of JObject members \<Rightarrow> map fst members | _ \<Rightarrow> [])"

text \<open>The array \<open>data.response.answers\<close> of a submission reply.\<close>

definition replyAnswers :: "submit_result \<Rightarrow> json list" where
  "replyAnswers res =
     (case sr_response res of None \<Rightarrow> [] | Some r \<Rightarrow> map answerJson (ri_answers r))"

section \<open>A sample exam\<close>

text \<open>
  An exam of one multiple-choice question (correct answer \<open>B\<close>, 10 points) and one essay
  question (5 points), owned by \<open>t1\<close> and shared under \<open>s1\<close>; and the same database after
  one response of 15 total points has been stored.
\<close>

definition sampleExam :: exam where
  "sampleExam =
     \<lparr>e_id = ''e1'', e_title = ''Quiz'', e_description = None, e_timeLimit = None,
      e_shareLink = ''s1'', e_isActive = True, e_authorId = ''t1''\<rparr>"

definition sampleQ1 :: question where
  "sampleQ1 =
     \<lparr>q_id = ''q1'', q_type = MULTIPLE_CHOICE, q_question = ''pick'',
      q_options = Some ''A,B,C,D'', q_correctAnswer = Some ''B'', q_points = 10,
      q_order = 1, q_examId = ''e1''\<rparr>"

definition sampleQ2 :: question where
  "sampleQ2 =
     \<lparr>q_id = ''q2'', q_type = ESSAY, q_question = ''write'',
      q_options = None, q_correctAnswer = None, q_points = 5,
      q_order = 2, q_examId = ''e1''\<rparr>"

definition sampleDb :: db where
  "sampleDb =
     \<lparr>db_exams = [sampleExam], db_questions = [sampleQ2, sampleQ1], db_responses = [],
      db_answers = []\<rparr>"

definition sampleResponse :: response_row where
  "sampleResponse =
     \<lparr>r_id = ''r0'', r_studentName = None, r_studentEmail = None, r_score = Some 10,
      r_totalPoints = 15, r_submittedAt = 0, r_examId = ''e1''\<rparr>"

definition sampleDbGraded :: db where
  "sampleDbGraded =
     \<lparr>db_exams = [sampleExam], db_questions = [sampleQ2, sampleQ1],
      db_responses = [sampleResponse],
      db_answers = [\<lparr>a_id = ''a0'', a_answer = ''B'', a_questionId = ''q1'',
                     a_responseId = ''r0''\<rparr>]\<rparr>"

text \<open>Identifiers for new answer rows: \<open>n0\<close>, \<open>n1\<close>, and \<open>nx\<close> from the third on.\<close>

definition sampleAnswerId :: "nat \<Rightarrow> string" where
  "sampleAnswerId i = (if i = 0 then ''n0'' else if i = 1 then ''n1'' else ''nx'')"

definition sampleSubmission :: "(string \<times> string) list \<Rightarrow> submit_body" where
  "sampleSubmission kvs =
     \<lparr>b_studentName = None, b_studentEmail = None,
      b_answers = map (\<lambda>(k, v). \<lparr>sa_questionId = k, sa_answer = v\<rparr>) kvs\<rparr>"

text \<open>The handler on the sample database, for a body that passed validation.\<close>

definition sampleSubmit :: "submit_body \<Rightarrow> db \<times> (http_error + submit_result)" where
  "sampleSubmit body = submitResponse sampleDb ''r1'' sampleAnswerId 7 ''s1'' ([], body)"

text \<open>The handler on the database that already holds a response.\<close>

definition gradedSubmit :: "submit_body \<Rightarrow> db \<times> (http_error + submit_result)" where
  "gradedSubmit body = submitResponse sampleDbGraded ''r1'' sampleAnswerId 7 ''s1'' ([], body)"

text \<open>
  A database with a second exam, owned by \<open>t2\<close> and shared under \<open>s2\<close>, whose one
  question \<open>q3\<close> is worth 7 points; and the handler on it, for the share link \<open>s1\<close> of
  the first exam.
\<close>

definition otherExam :: exam where
  "otherExam =
     \<lparr>e_id = ''e2'', e_title = ''Other'', e_description = None, e_timeLimit = None,
      e_shareLink = ''s2'', e_isActive = True, e_authorId = ''t2''\<rparr>"

definition otherQ :: question where
  "otherQ =
     \<lparr>q_id = ''q3'', q_type = MULTIPLE_CHOICE, q_question = ''other'',
      q_options = Some ''A,B'', q_correctAnswer = Some ''B'', q_points = 7,
      q_order = 1, q_examId = ''e2''\<rparr>"

definition twoExamDb :: db where
  "twoExamDb =
     \<lparr>db_exams = [otherExam, sampleExam], db_questions = [otherQ, sampleQ2, sampleQ1],
      db_responses = [sampleResponse],
      db_answers = [\<lparr>a_id = ''a0'', a_answer = ''B'', a_questionId = ''q1'',
                     a_responseId = ''r0''\<rparr>]\<rparr>"

definition twoExamSubmit :: "submit_body \<Rightarrow> db \<times> (http_error + submit_result)" where
  "twoExamSubmit body = submitResponse twoExamDb ''r1'' sampleAnswerId 7 ''s1'' ([], body)"

text \<open>The same exam with 23 points on the multiple-choice question and 17 on the essay.\<close>

definition unevenDb :: db where
  "unevenDb =
     sampleDb\<lparr>db_questions := [sampleQ2\<lparr>q_points := 17\<rparr>, sampleQ1\<lparr>q_points := 23\<rparr>]\<rparr>"

definition unevenSubmit :: "submit_body \<Rightarrow> db \<times> (http_error + submit_result)" where
  "unevenSubmit body = submitResponse unevenDb ''r1'' sampleAnswerId 7 ''s1'' ([], body)"

text \<open>The whole route on the sample database, with an e-mail check that accepts everything.\<close>

definition sampleRoute :: "submit_body \<Rightarrow> db \<times> (http_error + submit_result)" where
  "sampleRoute body =
     submitRoute (\<lambda>e. True) (\<lambda>e. e) sampleDb ''r1'' sampleAnswerId 7 ''s1'' body"

text \<open>
  The answer \<open>B\<close> as a client may send it, with the seven whitespace characters
  around it; and an answer that is one no-break space.
\<close>

definition paddedAnswer :: string where
  "paddedAnswer =
     [CHR 0xA0, CHR 0x09, CHR 0x0A, CHR 0x0B] @ ''B'' @ [CHR 0x0C, CHR 0x0D, CHR 0x20, CHR 0xA0]"

definition blankAnswer :: string where
  "blankAnswer = [CHR 0xA0]"

section \<open>Auxiliary notions for the proofs\<close>

text \<open>What one question adds to the score, and the record it pushes, if any.\<close>

definition earned :: "submitted_answer list \<Rightarrow> question \<Rightarrow> int" where
  "earned as q =
     (case findAnswer as q of
        None \<Rightarrow> 0
      | Some a \<Rightarrow> (if fst (gradeAnswer q a 0) then q_points q else 0))"

definition emitted :: "submitted_answer list \<Rightarrow> question \<Rightarrow> processed_answer list" where
  "emitted as q =
     (case findAnswer as q of
        None \<Rightarrow> []
      | Some a \<Rightarrow> [\<lparr>pa_questionId = q_id q, pa_answer = sa_answer a,
                    pa_isCorrect = fst (gradeAnswer q a 0)\<rparr>])"

section \<open>The grading loop in closed form\<close>

lemma gradeAnswer_snd:
  "snd (gradeAnswer q a sc) = sc + (if fst (gradeAnswer q a 0) then q_points q else 0)"
  by (simp add: gradeAnswer_def)

lemma gradeAnswer_fst: "fst (gradeAnswer q a sc) = fst (gradeAnswer q a 0)"
  by (simp add: gradeAnswer_def)

lemma gradeStep_delta:
  "gradeStep as st q =
     \<lparr>score = score st + earned as q,
      totalPoints = totalPoints st + q_points q,
      processedAnswers = processedAnswers st @ emitted as q\<rparr>"
proof (cases "findAnswer as q")
  case None
  then show ?thesis by (simp add: gradeStep_def earned_def emitted_def)
next
  case (Some a)
  obtain b sc where g: "gradeAnswer q a (score st) = (b, sc)"
    by (cases "gradeAnswer q a (score st)")
  have b: "b = fst (gradeAnswer q a 0)"
    using g gradeAnswer_fst [of q a "score st"] by simp
  have sc: "sc = score st + (if fst (gradeAnswer q a 0) then q_points q else 0)"
    using g gradeAnswer_snd [of q a "score st"] by simp
  show ?thesis using Some g b sc by (simp add: gradeStep_def earned_def emitted_def)
qed

lemma foldl_gradeStep:
  "foldl (gradeStep as) st qs =
     \<lparr>score = score st + sum_list (map (earned as) qs),
      totalPoints = totalPoints st + sum_list (map q_points qs),
      processedAnswers = processedAnswers st @ concat (map (emitted as) qs)\<rparr>"
proof (induction qs arbitrary: st)
  case Nil
  show ?case by simp
next
  case (Cons q qs)
  have "foldl (gradeStep as) st (q # qs) = foldl (gradeStep as) (gradeStep as st q) qs"
    by simp
  also have "\<dots> =
     \<lparr>score = score (gradeStep as st q) + sum_list (map (earned as) qs),
      totalPoints = totalPoints (gradeStep as st q) + sum_list (map q_points qs),
      processedAnswers = processedAnswers (gradeStep as st q) @ concat (map (emitted as) qs)\<rparr>"
    by (rule Cons.IH)
  also have "\<dots> =
     \<lparr>score = score st + sum_list (map (earned as) (q # qs)),
      totalPoints = totalPoints st + sum_list (map q_points (q # qs)),
      processedAnswers = processedAnswers st @ concat (map (emitted as) (q # qs))\<rparr>"
    by (simp add: gradeStep_delta [of as st q])
  finally show ?case .
qed

lemma grade_eq:
  "grade as qs =
     \<lparr>score = sum_list (map (earned as) qs),
      totalPoints = sum_list (map q_points qs),
      processedAnswers = concat (map (emitted as) qs)\<rparr>"
  by (simp add: grade_def foldl_gradeStep gradeInit_def)

lemma score_grade: "score (grade as qs) = sum_list (map (earned as) qs)"
  by (simp add: grade_eq)

lemma totalPoints_grade: "totalPoints (grade as qs) = sum_list (map q_points qs)"
  by (simp add: grade_eq)

lemma processedAnswers_grade: "processedAnswers (grade as qs) = concat (map (emitted as) qs)"
  by (simp add: grade_eq)

lemma sum_list_sort_key: "sum_list (map f (sort_key k xs)) = sum_list (map (f :: 'a \<Rightarrow> int) xs)"
proof -
  have "mset (map f (sort_key k xs)) = mset (map f xs)" by simp
  then show ?thesis by (metis sum_mset_sum_list)
qed

lemma set_examQuestions:
  "set (examQuestions d ex) = {q \<in> set (db_questions d). q_examId q = e_id ex}"
  by (simp add: examQuestions_def)

lemma sorted_examQuestions: "sorted (map q_order (examQuestions d ex))"
  by (simp add: examQuestions_def)

lemma totalPoints_examQuestions:
  "sum_list (map q_points (examQuestions d ex)) =
     sum_list (map q_points (filter (\<lambda>q. q_examId q = e_id ex) (db_questions d)))"
  by (simp add: examQuestions_def sum_list_sort_key)

lemma submitResponse_InrD:
  assumes "submitResponse d rid aid now link (errs, body) = (d', Inr res)"
  shows "\<exists>ex. errs = [] \<and> findActiveExam d link = Some ex \<and>
           rid \<notin> set (map r_id (db_responses d)) \<and>
           d' = d\<lparr>db_responses := db_responses d @
                    [\<lparr>r_id = rid, r_studentName = b_studentName body,
                      r_studentEmail = b_studentEmail body,
                      r_score = Some (score (grade (b_answers body) (examQuestions d ex))),
                      r_totalPoints = totalPoints (grade (b_answers body) (examQuestions d ex)),
                      r_submittedAt = now, r_examId = e_id ex\<rparr>],
                  db_answers := db_answers d @
                    answersData aid rid
                      (processedAnswers (grade (b_answers body) (examQuestions d ex)))\<rparr> \<and>
           res = \<lparr>sr_response = findResponseIncluded questionSelect d' rid,
                  sr_score = score (grade (b_answers body) (examQuestions d ex)),
                  sr_totalPoints = totalPoints (grade (b_answers body) (examQuestions d ex)),
                  sr_percentage =
                    percentage (score (grade (b_answers body) (examQuestions d ex)))
                      (totalPoints (grade (b_answers body) (examQuestions d ex)))\<rparr>"
  using assms
  by (auto simp: submitResponse_def Let_def createResponse_def createManyAnswers_def
        answersData_def
      split: if_splits option.splits)

lemma earned_unmatched: "findAnswer as q = None \<Longrightarrow> earned as q = 0"
  by (simp add: earned_def)

lemma findAnswer_None_iff:
  "findAnswer as q = None \<longleftrightarrow> (\<forall>a\<in>set as. sa_questionId a \<noteq> q_id q)"
  by (auto simp: findAnswer_def find_None_iff)

lemma sum_list_all_zero: "(\<forall>x\<in>set xs. f x = (0::int)) \<Longrightarrow> sum_list (map f xs) = 0"
  by (induction xs) simp_all

text \<open>A reply of the sample handler that is not an error is a success.\<close>

lemma sampleSubmit_success:
  assumes "\<not> isl (snd (sampleSubmit body))"
  shows "submitResponse sampleDb ''r1'' sampleAnswerId 7 ''s1'' ([], body) =
           (fst (sampleSubmit body), Inr (projr (snd (sampleSubmit body))))"
  using assms by (simp add: sampleSubmit_def prod_eq_iff)

lemma sample_findActiveExam: "findActiveExam sampleDb ''s1'' = Some sampleExam"
  by (simp add: findActiveExam_def sampleDb_def sampleExam_def)

section \<open>Total points\<close>

text \<open>
  C2: the \<open>totalPoints\<close> of a submission is the sum of \<open>points\<close> over all questions of the
  exam, whatever was answered, and it is the total stored with the response; a submission
  none of whose answers matches a question of the exam has score 0.
\<close>

theorem submission_totalPoints:
  assumes "submitResponse d rid aid now link (errs, body) = (d', Inr res)"
  shows "\<exists>ex. findActiveExam d link = Some ex \<and>
           sr_totalPoints res =
             sum_list (map q_points (filter (\<lambda>q. q_examId q = e_id ex) (db_questions d))) \<and>
           r_totalPoints (last (db_responses d')) = sr_totalPoints res \<and>
           ((\<forall>q\<in>set (examQuestions d ex). \<forall>a\<in>set (b_answers body). sa_questionId a \<noteq> q_id q)
              \<longrightarrow> sr_score res = 0 \<and> r_score (last (db_responses d')) = Some 0)"
proof -
  from submitResponse_InrD [OF assms] obtain ex where
    ex: "findActiveExam d link = Some ex"
    and d': "d' = d\<lparr>db_responses := db_responses d @
                    [\<lparr>r_id = rid, r_studentName = b_studentName body,
                      r_studentEmail = b_studentEmail body,
                      r_score = Some (score (grade (b_answers body) (examQuestions d ex))),
                      r_totalPoints = totalPoints (grade (b_answers body) (examQuestions d ex)),
                      r_submittedAt = now, r_examId = e_id ex\<rparr>],
                  db_answers := db_answers d @
                    answersData aid rid
                      (processedAnswers (grade (b_answers body) (examQuestions d ex)))\<rparr>"
    and res: "res = \<lparr>sr_response = findResponseIncluded questionSelect d' rid,
                  sr_score = score (grade (b_answers body) (examQuestions d ex)),
                  sr_totalPoints = totalPoints (grade (b_answers body) (examQuestions d ex)),
                  sr_percentage =
                    percentage (score (grade (b_answers body) (examQuestions d ex)))
                      (totalPoints (grade (b_answers body) (examQuestions d ex)))\<rparr>"
    by blast
  have tp: "sr_totalPoints res =
      sum_list (map q_points (filter (\<lambda>q. q_examId q = e_id ex) (db_questions d)))"
    by (simp add: res totalPoints_grade totalPoints_examQuestions)
  have row: "r_totalPoints (last (db_responses d')) = sr_totalPoints res"
    by (simp add: d' res)
  have zero: "sr_score res = 0 \<and> r_score (last (db_responses d')) = Some 0"
    if none: "\<forall>q\<in>set (examQuestions d ex). \<forall>a\<in>set (b_answers body). sa_questionId a \<noteq> q_id q"
  proof -
    have "earned (b_answers body) q = 0" if "q \<in> set (examQuestions d ex)" for q
      using that none by (intro earned_unmatched) (simp add: findAnswer_None_iff)
    then have "sum_list (map (earned (b_answers body)) (examQuestions d ex)) = 0"
      by (intro sum_list_all_zero) simp
    then have "score (grade (b_answers body) (examQuestions d ex)) = 0"
      by (simp add: score_grade)
    then show ?thesis by (simp add: d' res)
  qed
  show ?thesis using ex tp row zero by blast
qed

text \<open>
  On the sample exam, a submission whose only answer names a question that is not part of
  it: total 15, score 0.
\<close>

theorem submission_totalPoints_witness:
  "sr_totalPoints (projr (snd (sampleSubmit (sampleSubmission [(''q9'', ''C'')])))) = 15 \<and>
   sr_score (projr (snd (sampleSubmit (sampleSubmission [(''q9'', ''C'')])))) = 0"
proof -
  have ok: "\<not> isl (snd (sampleSubmit (sampleSubmission [(''q9'', ''C'')])))"
    by code_simp
  have none: "\<forall>q\<in>set (examQuestions sampleDb sampleExam).
      \<forall>a\<in>set (b_answers (sampleSubmission [(''q9'', ''C'')])). sa_questionId a \<noteq> q_id q"
    by (auto simp: set_examQuestions sampleDb_def sampleExam_def sampleQ1_def sampleQ2_def
          sampleSubmission_def)
  have tot: "sum_list (map q_points
      (filter (\<lambda>q. q_examId q = e_id sampleExam) (db_questions sampleDb))) = 15"
    by (simp add: sampleDb_def sampleExam_def sampleQ1_def sampleQ2_def)
  from submission_totalPoints [OF sampleSubmit_success [OF ok]] sample_findActiveExam none tot
  show ?thesis by auto
qed

section \<open>The score never exceeds the total\<close>

text \<open>
  The rows \<open>createExam\<close> stores for a validated body carry between 1 and 100 points and
  the orders 1, 2, 3 and so on.
\<close>

lemma questionsData_points:
  assumes "pointsValidation qs = []"
  shows "\<forall>q\<in>set (questionsData ids examId qs). 1 \<le> q_points q \<and> q_points q \<le> 100"
proof -
  have ok: "case qi_points q of None \<Rightarrow> True | Some p \<Rightarrow> 1 \<le> p \<and> p \<le> 100"
    if "q \<in> set qs" for q
    using assms that
    by (auto simp: pointsValidation_def split: option.splits if_splits)
  show ?thesis
  proof
    fix row assume "row \<in> set (questionsData ids examId qs)"
    then obtain i q where "(i, q) \<in> set (enumerate 0 qs)"
      and row: "q_points row = (case qi_points q of None \<Rightarrow> 1 | Some p \<Rightarrow> if p = 0 then 1 else p)"
      by (auto simp: questionsData_def)
    then have "q \<in> set qs" by (auto simp: in_set_enumerate_eq)
    from ok [OF this] show "1 \<le> q_points row \<and> q_points row \<le> 100"
      by (auto simp: row split: option.splits)
  qed
qed

lemma map_fst_of_enumerate:
  "map (\<lambda>p. f (fst p)) (enumerate n xs) = map f [n..<n + length xs]"
proof -
  have "map (\<lambda>p. f (fst p)) (enumerate n xs) = map (f \<circ> fst) (zip [n..<n + length xs] xs)"
    by (simp only: enumerate_eq_zip comp_def)
  also have "\<dots> = map f (map fst (zip [n..<n + length xs] xs))"
    by (simp only: map_map)
  also have "\<dots> = map f [n..<n + length xs]"
    by (subst map_fst_zip) simp_all
  finally show ?thesis .
qed

lemma questionsData_order:
  "map q_order (questionsData ids examId qs) = map (\<lambda>i. int i + 1) [0..<length qs]"
  using map_fst_of_enumerate [of "\<lambda>i. int i + 1" 0 qs]
  by (simp add: questionsData_def split_def comp_def)

text \<open>
  C10: when no question of the database has negative points (the exam routes only store
  points between 1 and 100), the score of a submission lies between 0 and its total
  points, in the reply and in the stored response.
\<close>

theorem score_within_total:
  assumes "submitResponse d rid aid now link (errs, body) = (d', Inr res)"
    and "\<forall>q\<in>set (db_questions d). 0 \<le> q_points q"
  shows "0 \<le> sr_score res \<and> sr_score res \<le> sr_totalPoints res \<and>
         (\<exists>row\<in>set (db_responses d'). r_id row = rid \<and> r_score row = Some (sr_score res) \<and>
              r_totalPoints row = sr_totalPoints res)"
proof -
  from submitResponse_InrD [OF assms(1)] obtain ex where
    d': "d' = d\<lparr>db_responses := db_responses d @
                    [\<lparr>r_id = rid, r_studentName = b_studentName body,
                      r_studentEmail = b_studentEmail body,
                      r_score = Some (score (grade (b_answers body) (examQuestions d ex))),
                      r_totalPoints = totalPoints (grade (b_answers body) (examQuestions d ex)),
                      r_submittedAt = now, r_examId = e_id ex\<rparr>],
                  db_answers := db_answers d @
                    answersData aid rid
                      (processedAnswers (grade (b_answers body) (examQuestions d ex)))\<rparr>"
    and res: "res = \<lparr>sr_response = findResponseIncluded questionSelect d' rid,
                  sr_score = score (grade (b_answers body) (examQuestions d ex)),
                  sr_totalPoints = totalPoints (grade (b_answers body) (examQuestions d ex)),
                  sr_percentage =
                    percentage (score (grade (b_answers body) (examQuestions d ex)))
                      (totalPoints (grade (b_answers body) (examQuestions d ex)))\<rparr>"
    by blast
  let ?qs = "examQuestions d ex"
  let ?as = "b_answers body"
  have pts: "0 \<le> q_points q" if "q \<in> set ?qs" for q
    using that assms(2) by (simp add: set_examQuestions)
  have e: "0 \<le> earned ?as q \<and> earned ?as q \<le> q_points q" if "q \<in> set ?qs" for q
    using pts [OF that] by (simp add: earned_def split: option.splits)
  have lo: "0 \<le> sum_list (map (earned ?as) ?qs)"
    using e by (intro sum_list_nonneg) auto
  have hi: "sum_list (map (earned ?as) ?qs) \<le> sum_list (map q_points ?qs)"
    using e by (intro sum_list_mono) auto
  show ?thesis using lo hi by (simp add: d' res score_grade totalPoints_grade)
qed

text \<open>On the sample exam with both questions answered and the first one right: 10 of 15.\<close>

theorem score_within_total_witness:
  "sr_score (projr (snd (sampleSubmit (sampleSubmission [(''q1'', ''B''), (''q2'', ''text'')])))) = 10 \<and>
   sr_totalPoints (projr (snd (sampleSubmit (sampleSubmission [(''q1'', ''B''), (''q2'', ''text'')])))) = 15 \<and>
   (\<exists>row\<in>set (db_responses (fst (sampleSubmit (sampleSubmission [(''q1'', ''B''), (''q2'', ''text'')])))).
      r_id row = ''r1'' \<and> r_score row = Some 10 \<and> r_totalPoints row = 15)"
proof -
  have ok: "\<not> isl (snd (sampleSubmit (sampleSubmission [(''q1'', ''B''), (''q2'', ''text'')])))"
    by code_simp
  have pts: "\<forall>q\<in>set (db_questions sampleDb). 0 \<le> q_points q"
    by (simp add: sampleDb_def sampleQ1_def sampleQ2_def)
  have sc: "sr_score (projr (snd (sampleSubmit (sampleSubmission [(''q1'', ''B''), (''q2'', ''text'')])))) = 10"
    by code_simp
  have tp: "sr_totalPoints (projr (snd (sampleSubmit (sampleSubmission [(''q1'', ''B''), (''q2'', ''text'')])))) = 15"
    by code_simp
  from score_within_total [OF sampleSubmit_success [OF ok] pts] sc tp
  show ?thesis by simp
qed

section \<open>What one answered question contributes\<close>

lemmas sample_defs =
  sampleDb_def sampleExam_def sampleQ1_def sampleQ2_def sampleSubmission_def

lemma grade_append:
  "grade as (pre @ q # post) =
     \<lparr>score = score (grade as pre) + earned as q + score (grade as post),
      totalPoints = totalPoints (grade as pre) + q_points q + totalPoints (grade as post),
      processedAnswers =
        processedAnswers (grade as pre) @ emitted as q @ processedAnswers (grade as post)\<rparr>"
  by (simp add: grade_eq)

text \<open>
  C1: a multiple-choice or true/false question with a submitted answer for its identifier
  (the first one in the submission, as \<open>find\<close> returns it). The record pushed for it
  carries \<open>isCorrect = true\<close>, and the score grows by the question's points, exactly when
  a correct answer is stored, is not empty, and equals the submitted text as a string;
  in every other case, a difference of case included, the record carries \<open>false\<close> and
  the score does not grow. The questions before and after contribute what they
  contribute on their own.
\<close>

theorem objective_answer_grading:
  fixes q :: question and a :: submitted_answer
  defines "matched \<equiv> (case q_correctAnswer q of None \<Rightarrow> False
                        | Some c \<Rightarrow> c \<noteq> [] \<and> sa_answer a = c)"
  assumes "q_type q = MULTIPLE_CHOICE \<or> q_type q = TRUE_FALSE"
    and "findAnswer as q = Some a"
  shows "grade as (pre @ q # post) =
     \<lparr>score = score (grade as pre) + (if matched then q_points q else 0) + score (grade as post),
      totalPoints = totalPoints (grade as pre) + q_points q + totalPoints (grade as post),
      processedAnswers =
        processedAnswers (grade as pre) @
        \<lparr>pa_questionId = q_id q, pa_answer = sa_answer a, pa_isCorrect = matched\<rparr> #
        processedAnswers (grade as post)\<rparr>"
proof -
  have m: "fst (gradeAnswer q a 0) = matched"
    using assms(2) by (auto simp: gradeAnswer_def matched_def truthy_def split: option.splits)
  show ?thesis
    using assms(3) by (simp add: grade_append earned_def emitted_def m)
qed

text \<open>
  The multiple-choice question of the sample exam, answered \<open>B\<close> (10 points, flag
  true) and answered \<open>b\<close> (no points, flag false).
\<close>

theorem objective_answer_grading_witness:
  "findAnswer [\<lparr>sa_questionId = ''q1'', sa_answer = ''B''\<rparr>] sampleQ1 =
     Some \<lparr>sa_questionId = ''q1'', sa_answer = ''B''\<rparr> \<and>
   grade [\<lparr>sa_questionId = ''q1'', sa_answer = ''B''\<rparr>] ([] @ sampleQ1 # [sampleQ2]) =
     \<lparr>score = 10, totalPoints = 15,
      processedAnswers = [\<lparr>pa_questionId = ''q1'', pa_answer = ''B'', pa_isCorrect = True\<rparr>]\<rparr> \<and>
   findAnswer [\<lparr>sa_questionId = ''q1'', sa_answer = ''b''\<rparr>] sampleQ1 =
     Some \<lparr>sa_questionId = ''q1'', sa_answer = ''b''\<rparr> \<and>
   grade [\<lparr>sa_questionId = ''q1'', sa_answer = ''b''\<rparr>] ([] @ sampleQ1 # [sampleQ2]) =
     \<lparr>score = 0, totalPoints = 15,
      processedAnswers = [\<lparr>pa_questionId = ''q1'', pa_answer = ''b'', pa_isCorrect = False\<rparr>]\<rparr>"
proof -
  have t: "q_type sampleQ1 = MULTIPLE_CHOICE \<or> q_type sampleQ1 = TRUE_FALSE"
    by (simp add: sampleQ1_def)
  have f1: "findAnswer [\<lparr>sa_questionId = ''q1'', sa_answer = ''B''\<rparr>] sampleQ1 =
     Some \<lparr>sa_questionId = ''q1'', sa_answer = ''B''\<rparr>"
    by (simp add: findAnswer_def sampleQ1_def)
  have f2: "findAnswer [\<lparr>sa_questionId = ''q1'', sa_answer = ''b''\<rparr>] sampleQ1 =
     Some \<lparr>sa_questionId = ''q1'', sa_answer = ''b''\<rparr>"
    by (simp add: findAnswer_def sampleQ1_def)
  have rest1: "grade [\<lparr>sa_questionId = ''q1'', sa_answer = ''B''\<rparr>] [sampleQ2] =
      \<lparr>score = 0, totalPoints = 5, processedAnswers = []\<rparr>"
    by (simp add: grade_eq earned_def emitted_def findAnswer_def sampleQ2_def)
  have rest2: "grade [\<lparr>sa_questionId = ''q1'', sa_answer = ''b''\<rparr>] [sampleQ2] =
      \<lparr>score = 0, totalPoints = 5, processedAnswers = []\<rparr>"
    by (simp add: grade_eq earned_def emitted_def findAnswer_def sampleQ2_def)
  have empty: "grade as [] = \<lparr>score = 0, totalPoints = 0, processedAnswers = []\<rparr>" for as
    by (simp add: grade_eq)
  have g1: "grade [\<lparr>sa_questionId = ''q1'', sa_answer = ''B''\<rparr>] ([] @ sampleQ1 # [sampleQ2]) =
     \<lparr>score = 10, totalPoints = 15,
      processedAnswers = [\<lparr>pa_questionId = ''q1'', pa_answer = ''B'', pa_isCorrect = True\<rparr>]\<rparr>"
    using objective_answer_grading [OF t f1, of "[]" "[sampleQ2]"]
    by (simp add: rest1 empty) (simp add: sampleQ1_def)
  have g2: "grade [\<lparr>sa_questionId = ''q1'', sa_answer = ''b''\<rparr>] ([] @ sampleQ1 # [sampleQ2]) =
     \<lparr>score = 0, totalPoints = 15,
      processedAnswers = [\<lparr>pa_questionId = ''q1'', pa_answer = ''b'', pa_isCorrect = False\<rparr>]\<rparr>"
    using objective_answer_grading [OF t f2, of "[]" "[sampleQ2]"]
    by (simp add: rest2 empty) (simp add: sampleQ1_def)
  show ?thesis using f1 f2 g1 g2 by simp
qed

text \<open>
  C4: a short-answer or essay question with a submitted answer. Its record carries
  \<open>isCorrect = false\<close> and the score does not grow, whatever the text and whatever
  correct answer is stored.
\<close>

theorem subjective_answer_grading:
  assumes "q_type q = SHORT_ANSWER \<or> q_type q = ESSAY"
    and "findAnswer as q = Some a"
  shows "grade as (pre @ q # post) =
     \<lparr>score = score (grade as pre) + score (grade as post),
      totalPoints = totalPoints (grade as pre) + q_points q + totalPoints (grade as post),
      processedAnswers =
        processedAnswers (grade as pre) @
        \<lparr>pa_questionId = q_id q, pa_answer = sa_answer a, pa_isCorrect = False\<rparr> #
        processedAnswers (grade as post)\<rparr>"
proof -
  have m: "fst (gradeAnswer q a 0) = False"
    using assms(1) by (auto simp: gradeAnswer_def)
  show ?thesis
    using assms(2) by (simp add: grade_append earned_def emitted_def m)
qed

text \<open>An essay question whose stored correct answer equals the submitted text.\<close>

theorem subjective_answer_grading_witness:
  "findAnswer [\<lparr>sa_questionId = ''q2'', sa_answer = ''text''\<rparr>]
      (sampleQ2\<lparr>q_correctAnswer := Some ''text''\<rparr>) =
     Some \<lparr>sa_questionId = ''q2'', sa_answer = ''text''\<rparr> \<and>
   grade [\<lparr>sa_questionId = ''q2'', sa_answer = ''text''\<rparr>]
      ([sampleQ1] @ sampleQ2\<lparr>q_correctAnswer := Some ''text''\<rparr> # []) =
     \<lparr>score = 0, totalPoints = 15,
      processedAnswers = [\<lparr>pa_questionId = ''q2'', pa_answer = ''text'', pa_isCorrect = False\<rparr>]\<rparr>"
proof -
  have t: "q_type (sampleQ2\<lparr>q_correctAnswer := Some ''text''\<rparr>) = SHORT_ANSWER \<or>
           q_type (sampleQ2\<lparr>q_correctAnswer := Some ''text''\<rparr>) = ESSAY"
    by (simp add: sampleQ2_def)
  have f: "findAnswer [\<lparr>sa_questionId = ''q2'', sa_answer = ''text''\<rparr>]
      (sampleQ2\<lparr>q_correctAnswer := Some ''text''\<rparr>) =
     Some \<lparr>sa_questionId = ''q2'', sa_answer = ''text''\<rparr>"
    by (simp add: findAnswer_def sampleQ2_def)
  have first: "grade [\<lparr>sa_questionId = ''q2'', sa_answer = ''text''\<rparr>] [sampleQ1] =
      \<lparr>score = 0, totalPoints = 10, processedAnswers = []\<rparr>"
    by (simp add: grade_eq earned_def emitted_def findAnswer_def sampleQ1_def)
  have empty: "grade as [] = \<lparr>score = 0, totalPoints = 0, processedAnswers = []\<rparr>" for as
    by (simp add: grade_eq)
  have g: "grade [\<lparr>sa_questionId = ''q2'', sa_answer = ''text''\<rparr>]
      ([sampleQ1] @ sampleQ2\<lparr>q_correctAnswer := Some ''text''\<rparr> # []) =
     \<lparr>score = 0, totalPoints = 15,
      processedAnswers = [\<lparr>pa_questionId = ''q2'', pa_answer = ''text'', pa_isCorrect = False\<rparr>]\<rparr>"
    using subjective_answer_grading [OF t f, of "[sampleQ1]" "[]"]
    by (simp add: first empty) (simp add: sampleQ2_def)
  show ?thesis using f g by simp
qed

section \<open>One record per matched question, in question order\<close>

lemma emitted_questionIds:
  "map pa_questionId (concat (map (emitted as) qs)) =
     filter (\<lambda>i. i \<in> sa_questionId ` set as) (map q_id qs)"
proof (induction qs)
  case Nil
  show ?case by simp
next
  case (Cons q qs)
  show ?case
  proof (cases "findAnswer as q")
    case None
    then have "q_id q \<notin> sa_questionId ` set as"
      by (auto simp: findAnswer_None_iff)
    with None Cons show ?thesis by (simp add: emitted_def)
  next
    case (Some a)
    then have "findAnswer as q \<noteq> None" by simp
    then have "q_id q \<in> sa_questionId ` set as"
      unfolding findAnswer_None_iff by force
    with Some Cons show ?thesis by (simp add: emitted_def)
  qed
qed

lemma findAnswer_filter:
  assumes "q \<in> set qs"
  shows "findAnswer (filter (\<lambda>a. sa_questionId a \<in> q_id ` set qs) as) q = findAnswer as q"
  unfolding findAnswer_def using assms
  by (induction as) auto

lemma grade_filter_answers:
  "grade (filter (\<lambda>a. sa_questionId a \<in> q_id ` set qs) as) qs = grade as qs"
proof -
  let ?as' = "filter (\<lambda>a. sa_questionId a \<in> q_id ` set qs) as"
  have e: "map (earned ?as') qs = map (earned as) qs"
    by (intro map_cong) (simp_all add: earned_def findAnswer_filter)
  have m: "map (emitted ?as') qs = map (emitted as) qs"
    by (intro map_cong) (simp_all add: emitted_def findAnswer_filter)
  show ?thesis by (simp add: grade_eq e m)
qed

lemma map_snd_of_enumerate: "map (\<lambda>p. f (snd p)) (enumerate n xs) = map f xs"
  by (induction xs arbitrary: n) simp_all

lemma answersData_questionIds:
  "map a_questionId (answersData aid rid pas) = map pa_questionId pas"
  by (simp add: answersData_def split_def comp_def map_snd_of_enumerate)

lemma answersData_answers:
  "map a_answer (answersData aid rid pas) = map pa_answer pas"
  by (simp add: answersData_def split_def comp_def map_snd_of_enumerate)

lemma answersData_responseIds:
  "\<forall>row\<in>set (answersData aid rid pas). a_responseId row = rid"
  by (auto simp: answersData_def)

lemma sum_list_filter_zero:
  "(\<forall>x\<in>set xs. \<not> P x \<longrightarrow> f x = (0::int)) \<Longrightarrow>
     sum_list (map f (filter P xs)) = sum_list (map f xs)"
  by (induction xs) simp_all

lemma score_grade_matched:
  "score (grade as (filter (\<lambda>q. q_id q \<in> sa_questionId ` set as) qs)) = score (grade as qs)"
proof -
  have "earned as q = 0" if "q_id q \<notin> sa_questionId ` set as" for q
  proof (rule earned_unmatched)
    have "sa_questionId a \<noteq> q_id q" if "a \<in> set as" for a
      using that \<open>q_id q \<notin> sa_questionId ` set as\<close> by (metis imageI)
    then show "findAnswer as q = None" by (simp add: findAnswer_None_iff)
  qed
  then show ?thesis
    by (simp add: score_grade sum_list_filter_zero)
qed

lemma mset_examQuestions:
  "mset (examQuestions d ex) = mset (filter (\<lambda>q. q_examId q = e_id ex) (db_questions d))"
  by (simp add: examQuestions_def)

lemma findActiveExam_SomeD:
  "findActiveExam d link = Some ex \<Longrightarrow>
     ex \<in> set (db_exams d) \<and> e_shareLink ex = link \<and> e_isActive ex"
  by (auto simp: findActiveExam_def find_Some_iff)

lemma twoExamSubmit_success:
  assumes "\<not> isl (snd (twoExamSubmit body))"
  shows "submitResponse twoExamDb ''r1'' sampleAnswerId 7 ''s1'' ([], body) =
           (fst (twoExamSubmit body), Inr (projr (snd (twoExamSubmit body))))"
  using assms by (simp add: twoExamSubmit_def prod_eq_iff)

lemmas twoExam_defs =
  twoExamDb_def otherExam_def otherQ_def sampleExam_def sampleQ1_def sampleQ2_def
  sampleResponse_def sampleSubmission_def

text \<open>
  C3: on a successful submission the exam is the active one stored under the share link,
  and its questions are the rows of the \<open>questions\<close> table whose \<open>examId\<close> is the
  identifier of that exam, taken in ascending \<open>order\<close>; the records pushed, and the
  answer rows stored for the new response, name exactly those of these questions whose
  identifier some submitted answer carries, once each and in question order; the score is
  the one of the matched questions alone and the total is the sum of the points of these
  questions; and the submitted answers that name no question of this exam (a question of
  another exam, or no question at all) change nothing: without them the handler returns
  the same database and the same reply.
\<close>

theorem answers_follow_questions:
  assumes "submitResponse d rid aid now link (errs, body) = (d', Inr res)"
  shows "\<exists>ex qs. findActiveExam d link = Some ex \<and>
      ex \<in> set (db_exams d) \<and> e_shareLink ex = link \<and> e_isActive ex \<and>
      qs = examQuestions d ex \<and>
      mset qs = mset (filter (\<lambda>q. q_examId q = e_id ex) (db_questions d)) \<and>
      sorted (map q_order qs) \<and>
      map pa_questionId (processedAnswers (grade (b_answers body) qs)) =
        filter (\<lambda>i. i \<in> sa_questionId ` set (b_answers body)) (map q_id qs) \<and>
      (\<exists>new. db_answers d' = db_answers d @ new \<and>
         map a_questionId new =
           filter (\<lambda>i. i \<in> sa_questionId ` set (b_answers body)) (map q_id qs) \<and>
         (\<forall>row\<in>set new. a_responseId row = rid)) \<and>
      sr_score res =
        score (grade (b_answers body)
          (filter (\<lambda>q. q_id q \<in> sa_questionId ` set (b_answers body)) qs)) \<and>
      sr_totalPoints res = sum_list (map q_points qs) \<and>
      submitResponse d rid aid now link
        (errs, body\<lparr>b_answers :=
           filter (\<lambda>a. \<exists>q\<in>set (db_questions d). q_examId q = e_id ex \<and> sa_questionId a = q_id q)
             (b_answers body)\<rparr>) =
        (d', Inr res)"
proof -
  from submitResponse_InrD [OF assms] obtain ex where
    ex: "findActiveExam d link = Some ex"
    and d': "d' = d\<lparr>db_responses := db_responses d @
                    [\<lparr>r_id = rid, r_studentName = b_studentName body,
                      r_studentEmail = b_studentEmail body,
                      r_score = Some (score (grade (b_answers body) (examQuestions d ex))),
                      r_totalPoints = totalPoints (grade (b_answers body) (examQuestions d ex)),
                      r_submittedAt = now, r_examId = e_id ex\<rparr>],
                  db_answers := db_answers d @
                    answersData aid rid
                      (processedAnswers (grade (b_answers body) (examQuestions d ex)))\<rparr>"
    and res: "res = \<lparr>sr_response = findResponseIncluded questionSelect d' rid,
                  sr_score = score (grade (b_answers body) (examQuestions d ex)),
                  sr_totalPoints = totalPoints (grade (b_answers body) (examQuestions d ex)),
                  sr_percentage =
                    percentage (score (grade (b_answers body) (examQuestions d ex)))
                      (totalPoints (grade (b_answers body) (examQuestions d ex)))\<rparr>"
    by blast
  let ?qs = "examQuestions d ex"
  let ?as = "b_answers body"
  let ?ids = "filter (\<lambda>i. i \<in> sa_questionId ` set ?as) (map q_id ?qs)"
  have ids: "map pa_questionId (processedAnswers (grade ?as ?qs)) = ?ids"
    by (simp add: processedAnswers_grade emitted_questionIds)
  have stored: "\<exists>new. db_answers d' = db_answers d @ new \<and> map a_questionId new = ?ids \<and>
      (\<forall>row\<in>set new. a_responseId row = rid)"
  proof (intro exI conjI)
    show "db_answers d' = db_answers d @ answersData aid rid (processedAnswers (grade ?as ?qs))"
      by (simp add: d')
    show "map a_questionId (answersData aid rid (processedAnswers (grade ?as ?qs))) = ?ids"
      by (simp only: answersData_questionIds ids)
    show "\<forall>row\<in>set (answersData aid rid (processedAnswers (grade ?as ?qs))). a_responseId row = rid"
      by (rule answersData_responseIds)
  qed
  have sc: "sr_score res =
      score (grade ?as (filter (\<lambda>q. q_id q \<in> sa_questionId ` set ?as) ?qs))"
    by (simp add: res score_grade_matched)
  have tp: "sr_totalPoints res = sum_list (map q_points ?qs)"
    by (simp add: res totalPoints_grade)
  have same: "(\<lambda>a. \<exists>q\<in>set (db_questions d). q_examId q = e_id ex \<and> sa_questionId a = q_id q) =
      (\<lambda>a. sa_questionId a \<in> q_id ` set ?qs)"
    by (rule ext) (auto simp: set_examQuestions)
  have "submitResponse d rid aid now link
        (errs, body\<lparr>b_answers := filter (\<lambda>a. sa_questionId a \<in> q_id ` set ?qs) ?as\<rparr>) =
      submitResponse d rid aid now link (errs, body)"
    by (simp add: submitResponse_def ex grade_filter_answers)
  then have dropped: "submitResponse d rid aid now link
        (errs, body\<lparr>b_answers :=
           filter (\<lambda>a. \<exists>q\<in>set (db_questions d). q_examId q = e_id ex \<and> sa_questionId a = q_id q)
             ?as\<rparr>) =
      (d', Inr res)"
    using assms by (simp only: same)
  show ?thesis
    using ex findActiveExam_SomeD [OF ex] mset_examQuestions [of d ex]
      sorted_examQuestions [of d ex] ids stored sc tp dropped
    by blast
qed

text \<open>
  The database of two exams, on the share link of the first: the answers come out of
  order, one names the question \<open>q3\<close> of the other exam with its correct answer, and
  one names a question \<open>q9\<close> that does not exist.
\<close>

theorem answers_follow_questions_witness:
  "map a_questionId (db_answers (fst (twoExamSubmit
      (sampleSubmission [(''q3'', ''B''), (''q9'', ''x''), (''q2'', ''text''), (''q1'', ''B'')])))) =
     [''q1'', ''q1'', ''q2''] \<and>
   sr_score (projr (snd (twoExamSubmit
      (sampleSubmission [(''q3'', ''B''), (''q9'', ''x''), (''q2'', ''text''), (''q1'', ''B'')])))) = 10 \<and>
   sr_totalPoints (projr (snd (twoExamSubmit
      (sampleSubmission [(''q3'', ''B''), (''q9'', ''x''), (''q2'', ''text''), (''q1'', ''B'')])))) = 15 \<and>
   submitResponse twoExamDb ''r1'' sampleAnswerId 7 ''s1''
     ([], sampleSubmission [(''q3'', ''B''), (''q9'', ''x''), (''q2'', ''text''), (''q1'', ''B'')]
            \<lparr>b_answers := [\<lparr>sa_questionId = ''q2'', sa_answer = ''text''\<rparr>,
                           \<lparr>sa_questionId = ''q1'', sa_answer = ''B''\<rparr>]\<rparr>) =
     twoExamSubmit
       (sampleSubmission [(''q3'', ''B''), (''q9'', ''x''), (''q2'', ''text''), (''q1'', ''B'')])"
proof -
  let ?body = "sampleSubmission [(''q3'', ''B''), (''q9'', ''x''), (''q2'', ''text''), (''q1'', ''B'')]"
  have ok: "\<not> isl (snd (twoExamSubmit ?body))"
    by code_simp
  have found: "findActiveExam twoExamDb ''s1'' = Some sampleExam"
    by (simp add: findActiveExam_def twoExam_defs)
  have qs: "examQuestions twoExamDb sampleExam = [sampleQ1, sampleQ2]"
    by (simp add: examQuestions_def twoExam_defs)
  have ids: "filter (\<lambda>i. i \<in> sa_questionId ` set (b_answers ?body))
      (map q_id [sampleQ1, sampleQ2]) = [''q1'', ''q2'']"
    by (simp add: twoExam_defs)
  have matched: "filter (\<lambda>q. q_id q \<in> sa_questionId ` set (b_answers ?body))
      [sampleQ1, sampleQ2] = [sampleQ1, sampleQ2]"
    by (simp add: twoExam_defs)
  have sc: "score (grade (b_answers ?body) [sampleQ1, sampleQ2]) = 10"
    by (simp add: grade_eq earned_def findAnswer_def gradeAnswer_def truthy_def twoExam_defs)
  have tp: "sum_list (map q_points [sampleQ1, sampleQ2]) = 15"
    by (simp add: twoExam_defs)
  have kept: "filter (\<lambda>a. \<exists>q\<in>set (db_questions twoExamDb).
        q_examId q = e_id sampleExam \<and> sa_questionId a = q_id q) (b_answers ?body) =
      [\<lparr>sa_questionId = ''q2'', sa_answer = ''text''\<rparr>, \<lparr>sa_questionId = ''q1'', sa_answer = ''B''\<rparr>]"
    by (simp add: twoExam_defs)
  have old: "map a_questionId (db_answers twoExamDb) = [''q1'']"
    by (simp add: twoExamDb_def)
  from answers_follow_questions [OF twoExamSubmit_success [OF ok]]
  obtain ex qs new where
    ex: "findActiveExam twoExamDb ''s1'' = Some ex"
    and q: "qs = examQuestions twoExamDb ex"
    and new: "db_answers (fst (twoExamSubmit ?body)) = db_answers twoExamDb @ new"
      "map a_questionId new =
         filter (\<lambda>i. i \<in> sa_questionId ` set (b_answers ?body)) (map q_id qs)"
    and s: "sr_score (projr (snd (twoExamSubmit ?body))) =
        score (grade (b_answers ?body)
          (filter (\<lambda>q. q_id q \<in> sa_questionId ` set (b_answers ?body)) qs))"
    and t: "sr_totalPoints (projr (snd (twoExamSubmit ?body))) = sum_list (map q_points qs)"
    and dropped: "submitResponse twoExamDb ''r1'' sampleAnswerId 7 ''s1''
        ([], ?body\<lparr>b_answers :=
           filter (\<lambda>a. \<exists>q\<in>set (db_questions twoExamDb).
                     q_examId q = e_id ex \<and> sa_questionId a = q_id q)
             (b_answers ?body)\<rparr>) =
        (fst (twoExamSubmit ?body), Inr (projr (snd (twoExamSubmit ?body))))"
    by blast
  have e: "ex = sampleExam" using ex found by simp
  have q': "qs = [sampleQ1, sampleQ2]" using q unfolding e qs .
  have a: "map a_questionId (db_answers (fst (twoExamSubmit ?body))) = [''q1'', ''q1'', ''q2'']"
    using new unfolding q' ids by (simp add: old)
  have b: "sr_score (projr (snd (twoExamSubmit ?body))) = 10"
    using s unfolding q' matched sc .
  have c: "sr_totalPoints (projr (snd (twoExamSubmit ?body))) = 15"
    using t unfolding q' tp .
  have "submitResponse twoExamDb ''r1'' sampleAnswerId 7 ''s1''
     ([], ?body\<lparr>b_answers := [\<lparr>sa_questionId = ''q2'', sa_answer = ''text''\<rparr>,
                                  \<lparr>sa_questionId = ''q1'', sa_answer = ''B''\<rparr>]\<rparr>) =
     (fst (twoExamSubmit ?body), Inr (projr (snd (twoExamSubmit ?body))))"
    using dropped unfolding e kept .
  also have "\<dots> = submitResponse twoExamDb ''r1'' sampleAnswerId 7 ''s1'' ([], ?body)"
    by (rule twoExamSubmit_success [OF ok, symmetric])
  also have "\<dots> = twoExamSubmit ?body"
    by (simp only: twoExamSubmit_def)
  finally have dd: "submitResponse twoExamDb ''r1'' sampleAnswerId 7 ''s1''
     ([], ?body\<lparr>b_answers := [\<lparr>sa_questionId = ''q2'', sa_answer = ''text''\<rparr>,
                                  \<lparr>sa_questionId = ''q1'', sa_answer = ''B''\<rparr>]\<rparr>) =
     twoExamSubmit ?body" .
  show ?thesis using a b c dd by (intro conjI)
qed

section \<open>The percentage\<close>

text \<open>
  Rounding to the nearest double loses at most the fraction \<open>2 ^ -53\<close> of the value. The
  quotient and the product of the percentage are each rounded once, so the double that
  \<open>Math.round\<close> receives is within the fraction \<open>2 ^ -51\<close> of \<open>score / totalPoints * 100\<close>.
\<close>

lemma bitLength_pos: "0 < n \<Longrightarrow> 0 < bitLength n"
  by (subst bitLength.simps) simp

lemma bitLength_bounds:
  "0 < n \<Longrightarrow> 2 ^ (bitLength n - 1) \<le> n \<and> n < 2 ^ bitLength n"
proof (induction n rule: bitLength.induct)
  case (1 n)
  show ?case
  proof (cases "n div 2 = 0")
    case True
    with \<open>0 < n\<close> have "n = 1" by presburger
    then show ?thesis by (simp add: bitLength.simps)
  next
    case False
    with \<open>0 < n\<close> have pos: "0 < n div 2" by presburger
    let ?k = "bitLength (n div 2)"
    from 1 pos \<open>0 < n\<close> have ih: "2 ^ (?k - 1) \<le> n div 2 \<and> n div 2 < 2 ^ ?k" by simp
    have kpos: "0 < ?k" using pos by (rule bitLength_pos)
    then have pw: "(2::int) ^ ?k = 2 * 2 ^ (?k - 1)" by (cases ?k) simp_all
    have bl: "bitLength n = Suc ?k" using \<open>0 < n\<close> by (subst bitLength.simps) simp
    have lo: "(2::int) ^ ?k \<le> n" using ih pw by presburger
    have hi: "n < 2 * 2 ^ ?k" using ih by presburger
    show ?thesis using lo hi bl by simp
  qed
qed

lemma scaledLe_iff:
  "0 < b \<Longrightarrow> scaledLe e b a \<longleftrightarrow> (2::real) powi e * of_int b \<le> of_int a"
proof (cases "0 \<le> e")
  case True
  assume "0 < b"
  have "(2 ^ nat e * b \<le> a) = ((of_int (2 ^ nat e * b) :: real) \<le> of_int a)" by (simp only: of_int_le_iff)
  then show ?thesis using True by (simp add: scaledLe_def power_int_def)
next
  case False
  assume "0 < b"
  have "(b \<le> 2 ^ nat (- e) * a) = ((of_int b :: real) \<le> of_int (2 ^ nat (- e) * a))" by (simp only: of_int_le_iff)
  then show ?thesis using False by (simp add: scaledLe_def power_int_def field_simps)
qed

lemma binaryExponent_le:
  assumes "0 < a" "0 < b"
  shows "(2::real) powi (binaryExponent a b) \<le> of_int a / of_int b"
proof -
  let ?e0 = "int (bitLength a) - int (bitLength b)"
  show ?thesis
  proof (cases "scaledLe ?e0 b a")
    case True
    then have "(2::real) powi ?e0 * of_int b \<le> of_int a" using assms scaledLe_iff by simp
    then have "(2::real) powi ?e0 \<le> of_int a / of_int b" using assms by (simp add: field_simps)
    then show ?thesis using True by (simp add: binaryExponent_def Let_def)
  next
    case False
    have A: "(2::real) ^ (bitLength a - 1) \<le> of_int a"
      using bitLength_bounds[OF assms(1)] by (metis of_int_le_iff of_int_numeral of_int_power)
    have B: "of_int b < (2::real) ^ bitLength b"
      using bitLength_bounds[OF assms(2)] by (metis of_int_less_iff of_int_numeral of_int_power)
    have pa: "0 < bitLength a" using assms(1) by (rule bitLength_pos)
    have e: "?e0 - 1 = int (bitLength a - 1) - int (bitLength b)" using pa by simp
    have "(2::real) powi (?e0 - 1) = 2 ^ (bitLength a - 1) / 2 ^ bitLength b"
      unfolding e by (simp add: power_int_diff)
    also have "\<dots> \<le> of_int a / 2 ^ bitLength b" using A by (simp add: divide_right_mono)
    also have "\<dots> \<le> of_int a / of_int b" using B assms by (simp add: frac_le)
    finally show ?thesis using False by (simp add: binaryExponent_def Let_def)
  qed
qed

lemma divRoundEven_error:
  assumes "0 < b"
  shows "\<bar>of_int (divRoundEven a b) - (of_int a / of_int b :: real)\<bar> \<le> 1 / 2"
proof -
  define n where "n = a div b"
  define r where "r = a mod b"
  have a: "a = b * n + r" by (simp add: n_def r_def)
  have r: "0 \<le> r" "r < b" using assms by (simp_all add: r_def)
  have q: "(of_int a / of_int b :: real) = of_int n + of_int r / of_int b"
    using assms by (simp add: a field_simps)
  have r0: "0 \<le> (of_int r / of_int b :: real)" using r assms by simp
  have r1: "(of_int r / of_int b :: real) < 1" using r assms by simp
  consider "2 * r < b" | "b < 2 * r" | "2 * r = b" by linarith
  then show ?thesis
  proof cases
    case 1
    then have "(of_int (2 * r) :: real) < of_int b" by (simp only: of_int_less_iff)
    then have "(of_int r / of_int b :: real) < 1 / 2" using assms by (simp add: field_simps)
    moreover have "divRoundEven a b = n" using 1 by (simp add: divRoundEven_def n_def r_def Let_def)
    ultimately show ?thesis using q r0 by simp
  next
    case 2
    then have "(of_int b :: real) < of_int (2 * r)" by (simp only: of_int_less_iff)
    then have "1 / 2 < (of_int r / of_int b :: real)" using assms by (simp add: field_simps)
    moreover have "divRoundEven a b = n + 1" using 2 by (simp add: divRoundEven_def n_def r_def Let_def)
    ultimately show ?thesis using q r1 by simp
  next
    case 3
    then have "(of_int (2 * r) :: real) = of_int b" by (simp only: of_int_eq_iff)
    then have h: "(of_int r / of_int b :: real) = 1 / 2" using assms by (simp add: field_simps)
    have "divRoundEven a b = n \<or> divRoundEven a b = n + 1"
      using 3 by (simp add: divRoundEven_def n_def r_def Let_def)
    then show ?thesis using q h by auto
  qed
qed

lemma roundScaled_error:
  assumes "0 < a" "0 < b"
  shows "\<exists>m e. roundScaled a b k = Double m e \<and> 2 ^ 52 \<le> m \<and>
           \<bar>of_int m * 2 powi e - (of_int a / of_int b * 2 powi k :: real)\<bar>
             \<le> of_int a / of_int b * 2 powi k / 2 ^ 53"
proof -
  define x :: real where "x = of_int a / of_int b"
  define s where "s = binaryExponent a b - 52"
  define m where "m = (if 0 \<le> s then divRoundEven a (b * 2 ^ nat s)
                       else divRoundEven (a * 2 ^ nat (- s)) b)"
  have xpos: "0 < x" using assms by (simp add: x_def)
  have rs: "roundScaled a b k = Double m (s + k)"
    using assms by (simp add: roundScaled_def Let_def s_def m_def)
  have E: "(2::real) powi (s + 52) \<le> x"
    using binaryExponent_le[OF assms] by (simp add: s_def x_def)
  have p52: "(2::real) powi (s + 52) = 2 powi s * 2 ^ 52"
    by (simp add: power_int_add)
  have m_err: "\<bar>of_int m - x / 2 powi s\<bar> \<le> 1 / 2"
  proof (cases "0 \<le> s")
    case True
    have "0 < b * 2 ^ nat s" using assms by simp
    from divRoundEven_error[OF this, of a]
    have "\<bar>of_int (divRoundEven a (b * 2 ^ nat s)) - (of_int a / of_int (b * 2 ^ nat s) :: real)\<bar> \<le> 1 / 2" .
    moreover have "(of_int a / of_int (b * 2 ^ nat s) :: real) = x / 2 powi s"
      using True by (simp add: x_def power_int_def)
    ultimately show ?thesis using True by (simp add: m_def)
  next
    case False
    from divRoundEven_error[OF assms(2), of "a * 2 ^ nat (- s)"]
    have "\<bar>of_int (divRoundEven (a * 2 ^ nat (- s)) b) - (of_int (a * 2 ^ nat (- s)) / of_int b :: real)\<bar> \<le> 1 / 2" .
    moreover have "(of_int (a * 2 ^ nat (- s)) / of_int b :: real) = x / 2 powi s"
      using False by (simp add: x_def power_int_def field_simps)
    ultimately show ?thesis using False by (simp add: m_def)
  qed
  have ps: "0 < (2::real) powi s" by simp
  have big: "2 ^ 52 \<le> x / 2 powi s"
    using E ps by (simp add: p52 field_simps)
  have "(2::real) ^ 52 - 1 / 2 \<le> of_int m" using m_err big by linarith
  then have "(2 ^ 52 - 1 :: real) < of_int m" by linarith
  then have "(of_int (2 ^ 52 - 1) :: real) < of_int m" by simp
  then have "2 ^ 52 - 1 < m" by (simp only: of_int_less_iff)
  then have mbig: "2 ^ 52 \<le> m" by simp
  have "\<bar>of_int m * 2 powi (s + k) - x * 2 powi k\<bar> = \<bar>of_int m - x / 2 powi s\<bar> * (2 powi s * 2 powi k)"
  proof -
    have "of_int m * 2 powi (s + k) - x * 2 powi k = (of_int m - x / 2 powi s) * (2 powi s * 2 powi k)"
      by (simp add: power_int_add field_simps)
    then show ?thesis by (simp add: abs_mult)
  qed
  also have "\<dots> \<le> 1 / 2 * (2 powi s * 2 powi k)"
    using m_err by (intro mult_right_mono) simp_all
  also have "\<dots> = 2 powi (s + 52) * 2 powi k / 2 ^ 53"
    by (simp add: p52)
  also have "\<dots> \<le> x * 2 powi k / 2 ^ 53"
    using E by (intro divide_right_mono mult_right_mono) simp_all
  finally have "\<bar>of_int m * 2 powi (s + k) - x * 2 powi k\<bar> \<le> x * 2 powi k / 2 ^ 53" .
  with rs mbig show ?thesis unfolding x_def by blast
qed

lemma mathRound_floor: "mathRound (Double m e) = \<lfloor>of_int m * 2 powi e + (1 / 2 :: real)\<rfloor>"
proof (cases "0 \<le> e")
  case True
  have eq: "(of_int m * 2 powi e + 1 / 2 :: real) = of_int (m * 2 ^ nat e) + 1 / 2"
    using True by (simp add: power_int_def)
  have "\<lfloor>(of_int (m * 2 ^ nat e) + 1 / 2 :: real)\<rfloor> = m * 2 ^ nat e"
    by (rule floor_unique) simp_all
  then have "\<lfloor>(of_int m * 2 powi e + 1 / 2 :: real)\<rfloor> = m * 2 ^ nat e"
    by (simp only: eq)
  then show ?thesis using True by (simp only: mathRound.simps if_True)
next
  case False
  define j where "j = nat (- e)"
  have "(of_int m * 2 powi e + 1 / 2 :: real) = of_int (2 * m + 2 ^ j) / of_int (2 ^ (j + 1))"
    using False by (simp add: power_int_def j_def field_simps)
  then have "\<lfloor>(of_int m * 2 powi e + 1 / 2 :: real)\<rfloor> = (2 * m + 2 ^ j) div 2 ^ (j + 1)"
    by (simp only: floor_divide_of_int_eq)
  then show ?thesis using False by (simp add: j_def)
qed

lemma mathRound_eq: "mathRound x = \<lfloor>dval x + 1 / 2\<rfloor>"
  by (cases x) (simp only: mathRound_floor dval.simps)

lemma binaryExponent_gt:
  assumes "0 < a" "0 < b"
  shows "of_int a / of_int b < (2::real) powi (binaryExponent a b + 1)"
proof -
  let ?e0 = "int (bitLength a) - int (bitLength b)"
  show ?thesis
  proof (cases "scaledLe ?e0 b a")
    case True
    have A: "of_int a < (2::real) ^ bitLength a"
      using bitLength_bounds[OF assms(1)] by (metis of_int_less_iff of_int_numeral of_int_power)
    have B: "(2::real) ^ (bitLength b - 1) \<le> of_int b"
      using bitLength_bounds[OF assms(2)] by (metis of_int_le_iff of_int_numeral of_int_power)
    have pb: "0 < bitLength b" using assms(2) by (rule bitLength_pos)
    have e: "?e0 + 1 = int (bitLength a) - int (bitLength b - 1)" using pb by simp
    have "of_int a / of_int b \<le> of_int a / (2::real) ^ (bitLength b - 1)"
      using B assms by (simp add: frac_le)
    also have "\<dots> < 2 ^ bitLength a / (2::real) ^ (bitLength b - 1)"
      using A by (simp add: divide_strict_right_mono)
    also have "\<dots> = (2::real) powi (?e0 + 1)"
      unfolding e by (simp add: power_int_diff)
    finally show ?thesis using True by (simp add: binaryExponent_def Let_def)
  next
    case False
    then have "\<not> (2::real) powi ?e0 * of_int b \<le> of_int a"
      using assms scaledLe_iff by simp
    then have "of_int a / of_int b < (2::real) powi ?e0"
      using assms by (simp add: field_simps)
    then show ?thesis using False by (simp add: binaryExponent_def Let_def)
  qed
qed

lemma percentage_nonpos: "t \<le> 0 \<Longrightarrow> percentage s t = 0"
  by (simp add: percentage_def)

lemma percentage_zero: "0 < t \<Longrightarrow> percentage 0 t = 0"
  by (simp add: percentage_def roundScaled_def)

lemma percentage_value:
  assumes "0 < s" "0 < t"
  shows "\<exists>v::real. percentage s t = \<lfloor>v + 1 / 2\<rfloor> \<and>
           \<bar>v - of_int s / of_int t * 100\<bar>
             \<le> of_int s / of_int t * 100 / 2 ^ 51"
proof -
  define x :: real where "x = of_int s / of_int t"
  have xpos: "0 < x" using assms by (simp add: x_def)
  obtain m1 e1 where d1: "roundScaled s t 0 = Double m1 e1"
    and m1: "2 ^ 52 \<le> m1"
    and err1: "\<bar>of_int m1 * 2 powi e1 - x * 2 powi 0\<bar> \<le> x * 2 powi 0 / 2 ^ 53"
    using roundScaled_error[OF assms, of 0] unfolding x_def by blast
  define y :: real where "y = of_int m1 * 2 powi e1"
  have err1': "\<bar>y - x\<bar> \<le> x / 2 ^ 53" using err1 by (simp add: y_def)
  have m1pos: "0 < m1 * 100" using m1 by simp
  obtain m2 e2 where d2: "roundScaled (m1 * 100) 1 (e1 + 0) = Double m2 e2"
    and err2: "\<bar>of_int m2 * 2 powi e2 - (of_int (m1 * 100) / of_int 1 * 2 powi (e1 + 0) :: real)\<bar>
                 \<le> of_int (m1 * 100) / of_int 1 * 2 powi (e1 + 0) / 2 ^ 53"
    using roundScaled_error[OF m1pos zero_less_one, of "e1 + 0"] by blast
  define v :: real where "v = of_int m2 * 2 powi e2"
  have y100: "(of_int (m1 * 100) / of_int 1 * 2 powi (e1 + 0) :: real) = y * 100"
    by (simp add: y_def)
  have err2': "\<bar>v - y * 100\<bar> \<le> y * 100 / 2 ^ 53"
    using err2 unfolding y100 v_def .
  have p: "percentage s t = \<lfloor>v + 1 / 2\<rfloor>"
    using assms d1 d2 by (simp add: percentage_def mathRound_eq v_def del: mathRound.simps)
  have ylo: "y \<le> x + x / 2 ^ 53" using err1' by linarith
  have "v - x * 100 = (v - y * 100) + (y - x) * 100" by simp
  then have "\<bar>v - x * 100\<bar> \<le> \<bar>v - y * 100\<bar> + \<bar>(y - x) * 100\<bar>"
    by (simp only: abs_triangle_ineq)
  also have "\<dots> = \<bar>v - y * 100\<bar> + \<bar>y - x\<bar> * 100"
    by (subst abs_mult) simp
  also have "\<dots> \<le> y * 100 / 2 ^ 53 + x / 2 ^ 53 * 100"
  proof (rule add_mono)
    show "\<bar>v - y * 100\<bar> \<le> y * 100 / 2 ^ 53" by (rule err2')
    show "\<bar>y - x\<bar> * 100 \<le> x / 2 ^ 53 * 100"
      using err1' by (intro mult_right_mono) simp_all
  qed
  also have "\<dots> \<le> (x + x / 2 ^ 53) * 100 / 2 ^ 53 + x / 2 ^ 53 * 100"
    using ylo by simp
  also have "\<dots> \<le> x * 100 / 2 ^ 51"
    using xpos by (simp add: field_simps)
  finally have "\<bar>v - x * 100\<bar> \<le> x * 100 / 2 ^ 51" .
  with p show ?thesis unfolding x_def by blast
qed

lemma percentage_round:
  assumes sb: "0 \<le> s" "s < 2 ^ 31" and tp: "0 < t"
  shows "if (of_int s / of_int t * 100 + 1 / 2 :: real) \<in> \<int>
         then percentage s t = round (of_int s / of_int t * 100 :: real) \<or>
              percentage s t = round (of_int s / of_int t * 100 :: real) - 1
         else percentage s t = round (of_int s / of_int t * 100 :: real)"
proof (cases "s = 0")
  case True
  then show ?thesis using tp by (simp add: percentage_zero)
next
  case False
  with sb have spos: "0 < s" by simp
  define X :: real where "X = of_int s / of_int t * 100"
  obtain v :: real where p: "percentage s t = \<lfloor>v + 1 / 2\<rfloor>"
    and err: "\<bar>v - X\<bar> \<le> X / 2 ^ 51"
    using percentage_value[OF spos tp] unfolding X_def by blast
  define n where "n = 200 * s + t"
  define d where "d = 2 * t"
  define N where "N = n div d"
  define r where "r = n mod d"
  have dpos: "0 < d" using tp by (simp add: d_def)
  have Xh: "X + 1 / 2 = of_int n / of_int d"
    using tp by (simp add: X_def n_def d_def field_simps)
  have rnd: "round X = N"
    unfolding round_def Xh N_def by (rule floor_divide_of_int_eq)
  have n: "n = d * N + r" by (simp add: N_def r_def)
  have r: "0 \<le> r" "r < d" using dpos by (simp_all add: r_def)
  have Xr: "X + 1 / 2 = of_int N + of_int r / of_int d"
    unfolding Xh using dpos by (simp add: n field_simps)
  have "(of_int (200 * s) :: real) < of_int (2 ^ 51)"
    using sb by (simp only: of_int_less_iff) simp
  then have s51: "200 * (of_int s :: real) < 2 ^ 51" by simp
  have "X / 2 ^ 51 = (200 * of_int s / 2 ^ 51) / of_int d"
    using tp by (simp add: X_def d_def field_simps)
  also have "\<dots> < 1 / of_int d"
    using s51 dpos by (intro divide_strict_right_mono) simp_all
  finally have eps: "X / 2 ^ 51 < 1 / of_int d" .
  have d1: "(1::real) \<le> of_int d" using dpos by linarith
  then have inv1: "1 / (of_int d :: real) \<le> 1" by simp
  show ?thesis
  proof (cases "r = 0")
    case True
    then have XN: "X + 1 / 2 = of_int N" using Xr by simp
    then have mem: "(X + 1 / 2) \<in> \<int>" by simp
    have "of_int N - 1 < v + 1 / 2" "v + 1 / 2 < of_int N + 1"
      using err eps inv1 XN by linarith+
    then have "\<lfloor>v + 1 / 2\<rfloor> = N \<or> \<lfloor>v + 1 / 2\<rfloor> = N - 1"
      by (smt (verit) floor_less_iff le_floor_iff of_int_1 of_int_add of_int_diff)
    then show ?thesis using mem p rnd unfolding X_def by simp
  next
    case False
    with r have r1: "1 \<le> r" "r \<le> d - 1" by simp_all
    have "(of_int 1 :: real) \<le> of_int r" "(of_int r :: real) \<le> of_int (d - 1)"
      using r1 by (simp_all only: of_int_le_iff)
    then have rr: "1 / of_int d \<le> (of_int r / of_int d :: real)"
      "(of_int r / of_int d :: real) \<le> 1 - 1 / of_int d"
      using dpos by (simp_all add: field_simps)
    have lo: "of_int N \<le> v + 1 / 2" using err eps rr Xr by linarith
    have hi: "v + 1 / 2 < of_int N + 1" using err eps rr Xr by linarith
    have fl: "\<lfloor>v + 1 / 2\<rfloor> = N" using lo hi by (rule floor_unique)
    then show ?thesis using p rnd unfolding X_def by simp
  qed
qed

text \<open>The significand of a rounded value has 53 bits.\<close>

lemma roundScaled_significand:
  assumes "0 < a" "0 < b"
  shows "\<exists>m e. roundScaled a b k = Double m e \<and> 2 ^ 52 \<le> m \<and> m \<le> 2 ^ 53"
proof -
  define x :: real where "x = of_int a / of_int b"
  define s where "s = binaryExponent a b - 52"
  define m where "m = (if 0 \<le> s then divRoundEven a (b * 2 ^ nat s)
                       else divRoundEven (a * 2 ^ nat (- s)) b)"
  have rs: "roundScaled a b k = Double m (s + k)"
    using assms by (simp add: roundScaled_def Let_def s_def m_def)
  from roundScaled_error [OF assms, of k] rs have lo: "2 ^ 52 \<le> m" by auto
  have U: "x < (2::real) powi (s + 53)"
    using binaryExponent_gt [OF assms] by (simp add: s_def x_def add.commute)
  have p53: "(2::real) powi (s + 53) = 2 powi s * 2 ^ 53"
    by (simp add: power_int_add)
  have m_err: "\<bar>of_int m - x / 2 powi s\<bar> \<le> 1 / 2"
  proof (cases "0 \<le> s")
    case True
    have "0 < b * 2 ^ nat s" using assms by simp
    from divRoundEven_error[OF this, of a]
    have "\<bar>of_int (divRoundEven a (b * 2 ^ nat s)) - (of_int a / of_int (b * 2 ^ nat s) :: real)\<bar> \<le> 1 / 2" .
    moreover have "(of_int a / of_int (b * 2 ^ nat s) :: real) = x / 2 powi s"
      using True by (simp add: x_def power_int_def)
    ultimately show ?thesis using True by (simp add: m_def)
  next
    case False
    from divRoundEven_error[OF assms(2), of "a * 2 ^ nat (- s)"]
    have "\<bar>of_int (divRoundEven (a * 2 ^ nat (- s)) b) - (of_int (a * 2 ^ nat (- s)) / of_int b :: real)\<bar> \<le> 1 / 2" .
    moreover have "(of_int (a * 2 ^ nat (- s)) / of_int b :: real) = x / 2 powi s"
      using False by (simp add: x_def power_int_def field_simps)
    ultimately show ?thesis using False by (simp add: m_def)
  qed
  have ps: "0 < (2::real) powi s" by simp
  have "x / 2 powi s < 2 ^ 53"
    using U ps by (simp add: p53 field_simps)
  then have "of_int m < (2 ^ 53 + 1 :: real)" using m_err by linarith
  then have "(of_int m :: real) < of_int (2 ^ 53 + 1)" by simp
  then have "m < 2 ^ 53 + 1" by (simp only: of_int_less_iff)
  then have hi: "m \<le> 2 ^ 53" by simp
  show ?thesis using rs lo hi by blast
qed

text \<open>
  The two roundings for 23 of 40: the quotient is the double \<open>0x1.2666666666666p-1\<close>, just
  below 0.575, and its product with 100 is the double \<open>0x1.cbfffffffffffp+5\<close>, just below
  57.5.
\<close>

lemma quotient_23_40:
  "divide_double (numberOfInt 23) (numberOfInt 40) = Double 5179139571476070 (- 53)"
  by code_simp

lemma product_23_40:
  "multiply_double (Double 5179139571476070 (- 53)) (numberOfInt 100) =
     Double 8092405580431359 (- 47)"
  by code_simp

lemma product_23_40_below_half:
  "dval (Double 8092405580431359 (- 47)) < 115 / 2 \<and>
   mathRound (Double 8092405580431359 (- 47)) = 57"
  by (simp add: power_int_minus)

lemma unevenSubmit_success:
  assumes "\<not> isl (snd (unevenSubmit body))"
  shows "submitResponse unevenDb ''r1'' sampleAnswerId 7 ''s1'' ([], body) =
           (fst (unevenSubmit body), Inr (projr (snd (unevenSubmit body))))"
  using assms by (simp add: unevenSubmit_def prod_eq_iff)

text \<open>
  C5, as the code has it: the percentage of a successful submission is 0 when the total
  is not positive. When the total is positive and the score lies between 0 and \<open>2 ^ 31\<close>,
  it is \<open>score / totalPoints * 100\<close> rounded to the nearest integer whenever that value is
  not exactly halfway between two integers; at an exact half it is the half rounded up or
  one less, as the rounding of the quotient and of the product decides.
\<close>

theorem submission_percentage:
  assumes "submitResponse d rid aid now link (errs, body) = (d', Inr res)"
    and "0 \<le> sr_score res" and "sr_score res < 2 ^ 31"
  shows "(sr_totalPoints res \<le> 0 \<longrightarrow> sr_percentage res = 0) \<and>
         (0 < sr_totalPoints res \<longrightarrow>
            (if (of_int (sr_score res) / of_int (sr_totalPoints res) * 100 + 1 / 2 :: real) \<in> \<int>
             then sr_percentage res =
                    round (of_int (sr_score res) / of_int (sr_totalPoints res) * 100 :: real) \<or>
                  sr_percentage res =
                    round (of_int (sr_score res) / of_int (sr_totalPoints res) * 100 :: real) - 1
             else sr_percentage res =
                    round (of_int (sr_score res) / of_int (sr_totalPoints res) * 100 :: real)))"
proof -
  from submitResponse_InrD [OF assms(1)]
  have p: "sr_percentage res = percentage (sr_score res) (sr_totalPoints res)"
    by auto
  show ?thesis
  proof (intro conjI impI)
    assume "sr_totalPoints res \<le> 0"
    then show "sr_percentage res = 0" by (simp add: p percentage_nonpos)
  next
    assume "0 < sr_totalPoints res"
    from percentage_round [OF assms(2) assms(3) this]
    show "if (of_int (sr_score res) / of_int (sr_totalPoints res) * 100 + 1 / 2 :: real) \<in> \<int>
          then sr_percentage res =
                 round (of_int (sr_score res) / of_int (sr_totalPoints res) * 100 :: real) \<or>
               sr_percentage res =
                 round (of_int (sr_score res) / of_int (sr_totalPoints res) * 100 :: real) - 1
          else sr_percentage res =
                 round (of_int (sr_score res) / of_int (sr_totalPoints res) * 100 :: real)"
      unfolding p .
  qed
qed

text \<open>The sample exam with the first question right: 10 of 15 is 67 percent.\<close>

theorem submission_percentage_witness:
  "sr_score (projr (snd (sampleSubmit (sampleSubmission [(''q1'', ''B''), (''q2'', ''text'')])))) = 10 \<and>
   sr_totalPoints (projr (snd (sampleSubmit (sampleSubmission [(''q1'', ''B''), (''q2'', ''text'')])))) = 15 \<and>
   sr_percentage (projr (snd (sampleSubmit (sampleSubmission [(''q1'', ''B''), (''q2'', ''text'')])))) = 67"
proof -
  let ?res = "projr (snd (sampleSubmit (sampleSubmission [(''q1'', ''B''), (''q2'', ''text'')])))"
  have ok: "\<not> isl (snd (sampleSubmit (sampleSubmission [(''q1'', ''B''), (''q2'', ''text'')])))"
    by code_simp
  have sc: "sr_score ?res = 10" by code_simp
  have tp: "sr_totalPoints ?res = 15" by code_simp
  have lo: "0 \<le> sr_score ?res" and hi: "sr_score ?res < 2 ^ 31" by (simp_all add: sc)
  have half: "(of_int 10 / of_int 15 * 100 + 1 / 2 :: real) \<notin> \<int>"
  proof
    assume "(of_int 10 / of_int 15 * 100 + 1 / 2 :: real) \<in> \<int>"
    then have "(403 / 6 :: real) \<in> \<int>" by simp
    then have "frac (403 / 6 :: real) = 0" by (simp only: frac_eq_0_iff)
    moreover have "frac (403 / 6 :: real) = 1 / 6"
      by (simp add: frac_def)
    ultimately show False by simp
  qed
  have r: "round (of_int 10 / of_int 15 * 100 :: real) = 67"
    by (simp add: round_def)
  from submission_percentage [OF sampleSubmit_success [OF ok] lo hi]
  have "sr_percentage ?res = 67"
    unfolding sc tp using half r by simp
  with sc tp show ?thesis by simp
qed

text \<open>
  C5 as stated fails at an exact half. With 23 of 40 points the exact value is 57.5, which
  rounds to 58; the quotient \<open>23 / 40\<close> is rounded down to a double, its product with 100
  is the double just below 57.5, and the reply carries 57.
\<close>

theorem percentage_counterexample:
  "\<not> isl (snd (unevenSubmit (sampleSubmission [(''q1'', ''B'')]))) \<and>
   sr_score (projr (snd (unevenSubmit (sampleSubmission [(''q1'', ''B'')])))) = 23 \<and>
   sr_totalPoints (projr (snd (unevenSubmit (sampleSubmission [(''q1'', ''B'')])))) = 40 \<and>
   sr_percentage (projr (snd (unevenSubmit (sampleSubmission [(''q1'', ''B'')])))) = 57 \<and>
   round (23 / 40 * 100 :: real) = 58"
proof (intro conjI)
  show "\<not> isl (snd (unevenSubmit (sampleSubmission [(''q1'', ''B'')])))"
    by code_simp
  show "sr_score (projr (snd (unevenSubmit (sampleSubmission [(''q1'', ''B'')])))) = 23"
    by code_simp
  show "sr_totalPoints (projr (snd (unevenSubmit (sampleSubmission [(''q1'', ''B'')])))) = 40"
    by code_simp
  show "sr_percentage (projr (snd (unevenSubmit (sampleSubmission [(''q1'', ''B'')])))) = 57"
    by code_simp
  show "round (23 / 40 * 100 :: real) = 58"
    by (simp add: round_def)
qed

section \<open>The text that is graded\<close>

lemma trim_decompose:
  "\<exists>pre suf. s = pre @ trim s @ suf \<and> (\<forall>c\<in>set pre. isSpace c) \<and> (\<forall>c\<in>set suf. isSpace c)"
proof (intro exI conjI)
  let ?t = "dropWhile isSpace s"
  have "rev (takeWhile isSpace (rev ?t) @ dropWhile isSpace (rev ?t)) = rev (rev ?t)"
    by (simp only: takeWhile_dropWhile_id)
  then have "rev (dropWhile isSpace (rev ?t)) @ rev (takeWhile isSpace (rev ?t)) = ?t"
    by (simp only: rev_append rev_rev_ident)
  then have t: "?t = trim s @ rev (takeWhile isSpace (rev ?t))"
    by (simp only: trim_def)
  have "s = takeWhile isSpace s @ ?t" by simp
  with t show "s = takeWhile isSpace s @ trim s @ rev (takeWhile isSpace (rev ?t))" by simp
  show "\<forall>c\<in>set (takeWhile isSpace s). isSpace c" by (auto dest: set_takeWhileD)
  show "\<forall>c\<in>set (rev (takeWhile isSpace (rev ?t))). isSpace c" by (auto dest: set_takeWhileD)
qed

lemma findAnswer_SomeD:
  "findAnswer as q = Some a \<Longrightarrow> a \<in> set as \<and> sa_questionId a = q_id q"
  by (auto simp: findAnswer_def find_Some_iff)

lemma emitted_answer:
  assumes "p \<in> set (emitted as q)"
  shows "pa_answer p \<in> sa_answer ` set as"
proof (cases "findAnswer as q")
  case None
  with assms show ?thesis by (simp add: emitted_def)
next
  case (Some a)
  with assms have "pa_answer p = sa_answer a" by (simp add: emitted_def)
  moreover have "a \<in> set as" using Some by (simp add: findAnswer_SomeD)
  ultimately show ?thesis by simp
qed

lemma submitRoute_InrD:
  assumes "submitRoute isEmail normalizeEmail d rid aid now link body = (d', Inr res)"
  shows "submitResponse d rid aid now link
           ([], \<lparr>b_studentName = map_option trim (b_studentName body),
                 b_studentEmail = map_option normalizeEmail (b_studentEmail body),
                 b_answers = map (\<lambda>a. a\<lparr>sa_answer := trim (sa_answer a)\<rparr>) (b_answers body)\<rparr>) =
         (d', Inr res)"
proof -
  obtain errors sanitized where v:
    "submitResponseValidation isEmail normalizeEmail body = (errors, sanitized)"
    by (cases "submitResponseValidation isEmail normalizeEmail body")
  have san: "sanitized =
      \<lparr>b_studentName = map_option trim (b_studentName body),
       b_studentEmail = map_option normalizeEmail (b_studentEmail body),
       b_answers = map (\<lambda>a. a\<lparr>sa_answer := trim (sa_answer a)\<rparr>) (b_answers body)\<rparr>"
    using v by (simp add: submitResponseValidation_def Let_def)
  have run: "submitResponse d rid aid now link (shareLinkValidation link @ errors, sanitized) =
      (d', Inr res)"
    using assms v by (simp add: submitRoute_def)
  then have "shareLinkValidation link @ errors = []"
    using submitResponse_InrD by blast
  with run show ?thesis by (simp add: san)
qed

lemma sampleRoute_success:
  assumes "\<not> isl (snd (sampleRoute body))"
  shows "submitRoute (\<lambda>e. True) (\<lambda>e. e) sampleDb ''r1'' sampleAnswerId 7 ''s1'' body =
           (fst (sampleRoute body), Inr (projr (snd (sampleRoute body))))"
  using assms by (simp add: sampleRoute_def prod_eq_iff)

lemma isSpace_iff:
  "isSpace c \<longleftrightarrow>
     c \<in> set [CHR 0x09, CHR 0x0A, CHR 0x0B, CHR 0x0C, CHR 0x0D, CHR 0x20, CHR 0xA0]"
  by (auto simp: isSpace_def)

lemma last_dropWhile_nonempty:
  "dropWhile P xs \<noteq> [] \<Longrightarrow> last (dropWhile P xs) = last xs"
proof -
  assume n: "dropWhile P xs \<noteq> []"
  have "last xs = last (takeWhile P xs @ dropWhile P xs)" by simp
  also have "\<dots> = last (dropWhile P xs)" using n by (rule last_appendR)
  finally show ?thesis by simp
qed

lemma trim_ends:
  assumes "trim s \<noteq> []"
  shows "\<not> isSpace (hd (trim s)) \<and> \<not> isSpace (last (trim s))"
proof -
  let ?t = "dropWhile isSpace s"
  let ?u = "dropWhile isSpace (rev ?t)"
  have tr: "trim s = rev ?u" by (simp add: trim_def)
  with assms have u: "?u \<noteq> []" by simp
  have t: "rev ?t \<noteq> []"
  proof
    assume "rev ?t = []"
    then have "?u = []" by (simp only: dropWhile.simps)
    with u show False by simp
  qed
  then have t': "?t \<noteq> []" by simp
  have "\<not> isSpace (hd ?u)" using u by (rule hd_dropWhile)
  then have l: "\<not> isSpace (last (trim s))"
    using u by (simp add: tr last_rev)
  have "hd (trim s) = last ?u" using u by (simp add: tr hd_rev)
  also have "\<dots> = last (rev ?t)" using u by (rule last_dropWhile_nonempty)
  also have "\<dots> = hd ?t" using t' by (simp add: last_rev)
  finally have "hd (trim s) = hd ?t" .
  moreover have "\<not> isSpace (hd ?t)" using t' by (rule hd_dropWhile)
  ultimately show ?thesis using l by simp
qed

lemma concat_if_Nil:
  "concat (map (\<lambda>a. if P a then [] else [m]) xs) = [] \<Longrightarrow> \<forall>a\<in>set xs. P a"
proof (induction xs)
  case Nil
  show ?case by simp
next
  case (Cons x xs)
  from Cons.prems have 1: "(if P x then [] else [m]) = []"
    and 2: "concat (map (\<lambda>a. if P a then [] else [m]) xs) = []"
    by simp_all
  from 1 have "P x" by (cases "P x") simp_all
  with Cons.IH[OF 2] show ?case by simp
qed

lemma submitResponseValidation_accepts:
  assumes "fst (submitResponseValidation isEmail normalizeEmail body) = []"
  shows "b_answers body \<noteq> [] \<and>
         (\<forall>a\<in>set (b_answers body). sa_questionId a \<noteq> [] \<and> trim (sa_answer a) \<noteq> [])"
proof -
  from assms have "\<exists>e1 e2.
      e1 @ e2 @
      (if 1 \<le> length (b_answers body) then []
       else [''Answers are required and must be an array'']) @
      concat (map (\<lambda>a. if 1 \<le> length (sa_questionId a) then []
                               else [''Question ID is required for each answer''])
                      (b_answers body)) @
      concat (map (\<lambda>a. if 1 \<le> length (sa_answer a) then [] else [''Answer is required''])
                      (map (\<lambda>a. a\<lparr>sa_answer := trim (sa_answer a)\<rparr>) (b_answers body))) = []"
    unfolding submitResponseValidation_def Let_def fst_conv by (intro exI)
  then have
    n: "(if 1 \<le> length (b_answers body) then []
         else [''Answers are required and must be an array'']) = []"
    and q: "concat (map (\<lambda>a. if 1 \<le> length (sa_questionId a) then []
                               else [''Question ID is required for each answer''])
                      (b_answers body)) = []"
    and t: "concat (map (\<lambda>a. if 1 \<le> length (sa_answer a) then [] else [''Answer is required''])
                      (map (\<lambda>a. a\<lparr>sa_answer := trim (sa_answer a)\<rparr>) (b_answers body))) = []"
    unfolding append_is_Nil_conv by blast+
  have a: "b_answers body \<noteq> []"
  proof
    assume "b_answers body = []"
    with n show False by simp
  qed
  have b: "sa_questionId x \<noteq> []" if "x \<in> set (b_answers body)" for x
  proof -
    from concat_if_Nil [OF q] that have "1 \<le> length (sa_questionId x)" by (rule bspec)
    then show ?thesis by (cases "sa_questionId x") simp_all
  qed
  have c: "trim (sa_answer x) \<noteq> []" if "x \<in> set (b_answers body)" for x
  proof -
    let ?g = "\<lambda>a. a\<lparr>sa_answer := trim (sa_answer a)\<rparr>"
    from that have "?g x \<in> ?g ` set (b_answers body)" by (rule imageI)
    then have "?g x \<in> set (map ?g (b_answers body))" by (simp only: set_map)
    with concat_if_Nil [OF t] have "1 \<le> length (sa_answer (?g x))" by (rule bspec)
    then show ?thesis by (cases "trim (sa_answer x)") simp_all
  qed
  show ?thesis using a b c by blast
qed

lemma submitRoute_accepted:
  assumes "submitRoute isEmail normalizeEmail d rid aid now link body = (d', Inr res)"
  shows "fst (submitResponseValidation isEmail normalizeEmail body) = []"
proof -
  obtain errors sanitized where v:
    "submitResponseValidation isEmail normalizeEmail body = (errors, sanitized)"
    by (cases "submitResponseValidation isEmail normalizeEmail body")
  have "submitResponse d rid aid now link (shareLinkValidation link @ errors, sanitized) =
      (d', Inr res)"
    using assms v by (simp add: submitRoute_def)
  then have "shareLinkValidation link @ errors = []"
    using submitResponse_InrD by blast
  then show ?thesis using v by simp
qed

lemma blank_answer_rejected:
  assumes "a \<in> set (b_answers body)" and "trim (sa_answer a) = []"
  shows "submitRoute isEmail normalizeEmail d rid aid now link body =
           (d, Inl \<lparr>status = 400, message = ''Validation failed''\<rparr>)"
proof -
  obtain errors sanitized where v:
    "submitResponseValidation isEmail normalizeEmail body = (errors, sanitized)"
    by (cases "submitResponseValidation isEmail normalizeEmail body")
  have "errors \<noteq> []"
  proof
    assume "errors = []"
    with v have "fst (submitResponseValidation isEmail normalizeEmail body) = []" by simp
    from submitResponseValidation_accepts [OF this] assms show False by blast
  qed
  then show ?thesis by (simp add: submitRoute_def v submitResponse_def)
qed

text \<open>
  C6, as the code has it: the route accepts a submission only if every answer text is
  non-empty after the \<open>trim\<close> of the validation chain, and the handler then runs on the
  body as the sanitizers left it: it grades and stores the trimmed texts. The graded text
  is the submitted text without the whitespace at its two ends: it is not empty, it neither
  begins nor ends with a whitespace character, and the submitted text is the graded text
  between two runs of whitespace characters, where the whitespace characters are the tab,
  the line feed, the vertical tab, the form feed, the carriage return, the space and the
  no-break space. Nothing else is changed, and the comparison with the stored correct
  answer is equality of strings.
\<close>

theorem graded_text_is_trimmed:
  assumes "submitRoute isEmail normalizeEmail d rid aid now link body = (d', Inr res)"
  shows "submitResponse d rid aid now link
           ([], \<lparr>b_studentName = map_option trim (b_studentName body),
                 b_studentEmail = map_option normalizeEmail (b_studentEmail body),
                 b_answers = map (\<lambda>a. a\<lparr>sa_answer := trim (sa_answer a)\<rparr>) (b_answers body)\<rparr>) =
         (d', Inr res) \<and>
    (\<exists>ex new. findActiveExam d link = Some ex \<and>
      sr_score res =
        score (grade (map (\<lambda>a. a\<lparr>sa_answer := trim (sa_answer a)\<rparr>) (b_answers body))
                 (examQuestions d ex)) \<and>
      db_answers d' = db_answers d @ new \<and>
      map a_answer new =
        map pa_answer
          (processedAnswers
             (grade (map (\<lambda>a. a\<lparr>sa_answer := trim (sa_answer a)\<rparr>) (b_answers body))
                (examQuestions d ex))) \<and>
      set (map a_answer new) \<subseteq> trim ` sa_answer ` set (b_answers body)) \<and>
    (\<forall>a\<in>set (b_answers body).
       trim (sa_answer a) \<noteq> [] \<and>
       \<not> isSpace (hd (trim (sa_answer a))) \<and> \<not> isSpace (last (trim (sa_answer a))) \<and>
       (\<exists>pre suf. sa_answer a = pre @ trim (sa_answer a) @ suf \<and>
          (\<forall>c\<in>set pre. isSpace c) \<and> (\<forall>c\<in>set suf. isSpace c))) \<and>
    (\<forall>c. isSpace c \<longleftrightarrow>
       c \<in> set [CHR 0x09, CHR 0x0A, CHR 0x0B, CHR 0x0C, CHR 0x0D, CHR 0x20, CHR 0xA0])"
proof -
  let ?as = "map (\<lambda>a. a\<lparr>sa_answer := trim (sa_answer a)\<rparr>) (b_answers body)"
  note run = submitRoute_InrD [OF assms]
  from submitResponse_InrD [OF run] obtain ex where
    ex: "findActiveExam d link = Some ex"
    and d': "db_answers d' = db_answers d @
               answersData aid rid (processedAnswers (grade ?as (examQuestions d ex)))"
    and sc: "sr_score res = score (grade ?as (examQuestions d ex))"
    by auto
  let ?pas = "processedAnswers (grade ?as (examQuestions d ex))"
  have texts: "set (map pa_answer ?pas) \<subseteq> sa_answer ` set ?as"
  proof
    fix x assume "x \<in> set (map pa_answer ?pas)"
    then obtain p q where "p \<in> set (emitted ?as q)" "x = pa_answer p"
      by (auto simp: processedAnswers_grade)
    then show "x \<in> sa_answer ` set ?as"
      using emitted_answer by blast
  qed
  have "sa_answer ` set ?as = trim ` sa_answer ` set (b_answers body)"
    by (auto simp: image_iff)
  with texts have sub: "set (map a_answer (answersData aid rid ?pas)) \<subseteq>
      trim ` sa_answer ` set (b_answers body)"
    by (simp only: answersData_answers)
  have graded: "\<exists>ex new. findActiveExam d link = Some ex \<and>
      sr_score res = score (grade ?as (examQuestions d ex)) \<and>
      db_answers d' = db_answers d @ new \<and>
      map a_answer new = map pa_answer (processedAnswers (grade ?as (examQuestions d ex))) \<and>
      set (map a_answer new) \<subseteq> trim ` sa_answer ` set (b_answers body)"
    using ex sc d' answersData_answers [of aid rid ?pas] sub by blast
  have ne: "trim (sa_answer a) \<noteq> []" if "a \<in> set (b_answers body)" for a
    using submitResponseValidation_accepts [OF submitRoute_accepted [OF assms]] that by blast
  have each: "\<forall>a\<in>set (b_answers body).
       trim (sa_answer a) \<noteq> [] \<and>
       \<not> isSpace (hd (trim (sa_answer a))) \<and> \<not> isSpace (last (trim (sa_answer a))) \<and>
       (\<exists>pre suf. sa_answer a = pre @ trim (sa_answer a) @ suf \<and>
          (\<forall>c\<in>set pre. isSpace c) \<and> (\<forall>c\<in>set suf. isSpace c))"
  proof (intro ballI conjI)
    fix a assume a: "a \<in> set (b_answers body)"
    show "trim (sa_answer a) \<noteq> []" by (rule ne [OF a])
    show "\<not> isSpace (hd (trim (sa_answer a)))" using trim_ends [OF ne [OF a]] by simp
    show "\<not> isSpace (last (trim (sa_answer a)))" using trim_ends [OF ne [OF a]] by simp
    show "\<exists>pre suf. sa_answer a = pre @ trim (sa_answer a) @ suf \<and>
          (\<forall>c\<in>set pre. isSpace c) \<and> (\<forall>c\<in>set suf. isSpace c)"
      by (rule trim_decompose)
  qed
  have sp: "\<forall>c. isSpace c \<longleftrightarrow>
       c \<in> set [CHR 0x09, CHR 0x0A, CHR 0x0B, CHR 0x0C, CHR 0x0D, CHR 0x20, CHR 0xA0]"
    by (intro allI isSpace_iff)
  show ?thesis using run graded each sp by (intro conjI)
qed

text \<open>
  The sample exam, answered with \<open>B\<close> between the seven whitespace characters, the
  no-break space first and last; and the same question answered with one no-break space,
  which the route rejects.
\<close>

theorem graded_text_is_trimmed_witness:
  "sr_score (projr (snd (sampleRoute (sampleSubmission [(''q1'', paddedAnswer)])))) = 10 \<and>
   map a_answer (db_answers (fst (sampleRoute (sampleSubmission [(''q1'', paddedAnswer)])))) =
     [''B''] \<and>
   trim paddedAnswer = ''B'' \<and>
   sampleRoute (sampleSubmission [(''q1'', blankAnswer)]) =
     (sampleDb, Inl \<lparr>status = 400, message = ''Validation failed''\<rparr>)"
proof -
  let ?body = "sampleSubmission [(''q1'', paddedAnswer)]"
  have ok: "\<not> isl (snd (sampleRoute ?body))"
    by code_simp
  have t: "trim paddedAnswer = ''B''"
    by (simp add: paddedAnswer_def trim_def isSpace_def)
  have tr: "map (\<lambda>a. a\<lparr>sa_answer := trim (sa_answer a)\<rparr>) (b_answers ?body) =
      [\<lparr>sa_questionId = ''q1'', sa_answer = ''B''\<rparr>]"
    by (simp add: sampleSubmission_def t)
  have sc: "score (grade [\<lparr>sa_questionId = ''q1'', sa_answer = ''B''\<rparr>]
      (examQuestions sampleDb sampleExam)) = 10"
    by code_simp
  have pa: "map pa_answer (processedAnswers (grade [\<lparr>sa_questionId = ''q1'', sa_answer = ''B''\<rparr>]
      (examQuestions sampleDb sampleExam))) = [''B'']"
    by code_simp
  have none: "db_answers sampleDb = []" by (simp add: sampleDb_def)
  from graded_text_is_trimmed [OF sampleRoute_success [OF ok]]
  obtain ex new where
    ex: "findActiveExam sampleDb ''s1'' = Some ex"
    and s: "sr_score (projr (snd (sampleRoute ?body))) =
        score (grade (map (\<lambda>a. a\<lparr>sa_answer := trim (sa_answer a)\<rparr>) (b_answers ?body))
                 (examQuestions sampleDb ex))"
    and n: "db_answers (fst (sampleRoute ?body)) = db_answers sampleDb @ new"
      "map a_answer new =
        map pa_answer
          (processedAnswers
             (grade (map (\<lambda>a. a\<lparr>sa_answer := trim (sa_answer a)\<rparr>) (b_answers ?body))
                (examQuestions sampleDb ex)))"
    by blast
  have e: "ex = sampleExam" using ex sample_findActiveExam by simp
  have a: "sr_score (projr (snd (sampleRoute ?body))) = 10"
    using s unfolding e tr sc .
  have b: "map a_answer (db_answers (fst (sampleRoute ?body))) = [''B'']"
    using n unfolding e tr pa none by simp
  have c: "sampleRoute (sampleSubmission [(''q1'', blankAnswer)]) =
     (sampleDb, Inl \<lparr>status = 400, message = ''Validation failed''\<rparr>)"
    unfolding sampleRoute_def
    by (rule blank_answer_rejected [of "\<lparr>sa_questionId = ''q1'', sa_answer = blankAnswer\<rparr>"])
       (simp_all add: sampleSubmission_def blankAnswer_def trim_def isSpace_def)
  show ?thesis using a b t c by (intro conjI)
qed

text \<open>
  C6 as stated fails: the client sends \<open>B\<close> between two spaces, which differs from the
  stored correct answer \<open>B\<close>; the submission is accepted, the answer is graded as
  correct for 10 points, and the text stored is \<open>B\<close>.
\<close>

theorem trimmed_answer_counterexample:
  "\<not> isl (snd (sampleRoute (sampleSubmission [(''q1'', '' B '')]))) \<and>
   map sa_answer (b_answers (sampleSubmission [(''q1'', '' B '')])) = ['' B ''] \<and>
   q_correctAnswer sampleQ1 = Some ''B'' \<and>
   sr_score (projr (snd (sampleRoute (sampleSubmission [(''q1'', '' B '')])))) = 10 \<and>
   map a_answer (db_answers (fst (sampleRoute (sampleSubmission [(''q1'', '' B '')])))) = [''B'']"
proof (intro conjI)
  show "\<not> isl (snd (sampleRoute (sampleSubmission [(''q1'', '' B '')])))"
    by code_simp
  show "map sa_answer (b_answers (sampleSubmission [(''q1'', '' B '')])) = ['' B '']"
    by (simp add: sampleSubmission_def)
  show "q_correctAnswer sampleQ1 = Some ''B''"
    by (simp add: sampleQ1_def)
  show "sr_score (projr (snd (sampleRoute (sampleSubmission [(''q1'', '' B '')])))) = 10"
    by code_simp
  show "map a_answer (db_answers (fst (sampleRoute (sampleSubmission [(''q1'', '' B '')])))) = [''B'']"
    by code_simp
qed

section \<open>The answers of the reply\<close>

lemma find_appended:
  assumes "\<forall>x\<in>set xs. \<not> P x" and "P y"
  shows "find P (xs @ [y]) = Some y"
  using assms by (induction xs) simp_all

lemma filter_none: "(\<forall>x\<in>set xs. \<not> P x) \<Longrightarrow> filter P xs = []"
  by (induction xs) simp_all

lemma filter_all: "(\<forall>x\<in>set xs. P x) \<Longrightarrow> filter P xs = xs"
  by (induction xs) simp_all

lemma answerJson_fields:
  "jsonKeys (answerJson a) = [''id'', ''answer'', ''questionId'', ''responseId'', ''question'']"
  "jsonField ''isCorrect'' (answerJson a) = None"
  "jsonField ''questionId'' (answerJson a) = Some (JString (ai_questionId a))"
  "jsonField ''answer'' (answerJson a) = Some (JString (ai_answer a))"
  by (simp_all add: answerJson_def jsonKeys_def jsonField_def)

lemma answersData_flag:
  "answersData aid rid (map (pa_isCorrect_update f) pas) = answersData aid rid pas"
proof -
  have "enumerate n (map (pa_isCorrect_update f) pas) =
      map (\<lambda>(i, a). (i, pa_isCorrect_update f a)) (enumerate n pas)" for n
    by (induction pas arbitrary: n) simp_all
  then show ?thesis
    by (simp add: answersData_def split_def comp_def)
qed

lemma submitResponse_reply_answers:
  assumes "submitResponse d rid aid now link (errs, body) = (d', Inr res)"
    and "\<forall>a\<in>set (db_answers d). a_responseId a \<noteq> rid"
  shows "\<exists>ex. findActiveExam d link = Some ex \<and>
      db_answers d' = db_answers d @
        answersData aid rid (processedAnswers (grade (b_answers body) (examQuestions d ex))) \<and>
      replyAnswers res =
        map (\<lambda>row. answerJson (answerIncluded questionSelect d' row))
          (answersData aid rid (processedAnswers (grade (b_answers body) (examQuestions d ex))))"
proof -
  from submitResponse_InrD [OF assms(1)] obtain ex where
    ex: "findActiveExam d link = Some ex"
    and fresh: "rid \<notin> set (map r_id (db_responses d))"
    and d': "d' = d\<lparr>db_responses := db_responses d @
                    [\<lparr>r_id = rid, r_studentName = b_studentName body,
                      r_studentEmail = b_studentEmail body,
                      r_score = Some (score (grade (b_answers body) (examQuestions d ex))),
                      r_totalPoints = totalPoints (grade (b_answers body) (examQuestions d ex)),
                      r_submittedAt = now, r_examId = e_id ex\<rparr>],
                  db_answers := db_answers d @
                    answersData aid rid
                      (processedAnswers (grade (b_answers body) (examQuestions d ex)))\<rparr>"
    and res: "sr_response res = findResponseIncluded questionSelect d' rid"
    by auto
  let ?rows = "answersData aid rid (processedAnswers (grade (b_answers body) (examQuestions d ex)))"
  let ?new = "\<lparr>r_id = rid, r_studentName = b_studentName body,
                      r_studentEmail = b_studentEmail body,
                      r_score = Some (score (grade (b_answers body) (examQuestions d ex))),
                      r_totalPoints = totalPoints (grade (b_answers body) (examQuestions d ex)),
                      r_submittedAt = now, r_examId = e_id ex\<rparr>"
  have da: "db_answers d' = db_answers d @ ?rows" by (simp add: d')
  have dr: "db_responses d' = db_responses d @ [?new]" by (simp add: d')
  have "\<forall>r\<in>set (db_responses d). \<not> r_id r = rid" using fresh by auto
  then have found: "find (\<lambda>r. r_id r = rid) (db_responses d') = Some ?new"
    unfolding dr by (intro find_appended) simp_all
  have old: "filter (\<lambda>a. a_responseId a = rid) (db_answers d) = []"
    using assms(2) by (intro filter_none) simp
  have new: "filter (\<lambda>a. a_responseId a = rid) ?rows = ?rows"
    using answersData_responseIds by (intro filter_all) simp
  have mine: "filter (\<lambda>a. a_responseId a = rid) (db_answers d') = ?rows"
    by (simp add: da old new)
  have "sr_response res = Some (responseIncluded questionSelect d' ?new)"
    by (simp add: res findResponseIncluded_def found)
  then have "replyAnswers res = map answerJson (map (answerIncluded questionSelect d') ?rows)"
    by (simp add: replyAnswers_def responseIncluded_def mine)
  then have "replyAnswers res = map (\<lambda>row. answerJson (answerIncluded questionSelect d' row)) ?rows"
    by (simp add: comp_def)
  with ex da show ?thesis by blast
qed

lemma findAnswer_matched:
  "q_id q \<in> sa_questionId ` set as \<Longrightarrow> \<exists>a. findAnswer as q = Some a"
proof -
  assume m: "q_id q \<in> sa_questionId ` set as"
  have "findAnswer as q \<noteq> None"
  proof
    assume "findAnswer as q = None"
    then have "\<forall>a\<in>set as. sa_questionId a \<noteq> q_id q" by (simp only: findAnswer_None_iff)
    with m show False by auto
  qed
  then show ?thesis by (cases "findAnswer as q") simp_all
qed

lemma findAnswer_unmatched:
  "q_id q \<notin> sa_questionId ` set as \<Longrightarrow> findAnswer as q = None"
proof -
  assume n: "q_id q \<notin> sa_questionId ` set as"
  have "sa_questionId a \<noteq> q_id q" if "a \<in> set as" for a
    using that n by (metis imageI)
  then show ?thesis by (simp add: findAnswer_None_iff)
qed

lemma emitted_matched:
  "concat (map (emitted as) qs) =
     map (\<lambda>q. \<lparr>pa_questionId = q_id q, pa_answer = sa_answer (the (findAnswer as q)),
                pa_isCorrect = fst (gradeAnswer q (the (findAnswer as q)) 0)\<rparr>)
       (filter (\<lambda>q. q_id q \<in> sa_questionId ` set as) qs)"
proof (induction qs)
  case Nil
  show ?case by simp
next
  case (Cons q qs)
  show ?case
  proof (cases "q_id q \<in> sa_questionId ` set as")
    case True
    from findAnswer_matched [OF True] obtain a where "findAnswer as q = Some a" ..
    with True Cons show ?thesis by (simp add: emitted_def)
  next
    case False
    from findAnswer_unmatched [OF False] False Cons show ?thesis by (simp add: emitted_def)
  qed
qed

lemma earned_matched:
  "q_id q \<in> sa_questionId ` set as \<Longrightarrow>
     earned as q = (if fst (gradeAnswer q (the (findAnswer as q)) 0) then q_points q else 0)"
proof -
  assume "q_id q \<in> sa_questionId ` set as"
  from findAnswer_matched [OF this] obtain a where "findAnswer as q = Some a" ..
  then show ?thesis by (simp add: earned_def)
qed

lemma zip_map_self: "zip (map g xs) xs = map (\<lambda>x. (g x, x)) xs"
  by (induction xs) simp_all

lemma score_by_flags:
  "score (grade as qs) =
     sum_list (map (\<lambda>(p, q). if pa_isCorrect p then q_points q else 0)
       (zip (processedAnswers (grade as qs))
            (filter (\<lambda>q. q_id q \<in> sa_questionId ` set as) qs)))"
proof -
  let ?m = "filter (\<lambda>q. q_id q \<in> sa_questionId ` set as) qs"
  let ?g = "\<lambda>q. \<lparr>pa_questionId = q_id q, pa_answer = sa_answer (the (findAnswer as q)),
                pa_isCorrect = fst (gradeAnswer q (the (findAnswer as q)) 0)\<rparr>"
  have "sum_list (map (\<lambda>(p, q). if pa_isCorrect p then q_points q else 0)
       (zip (processedAnswers (grade as qs)) ?m)) =
      sum_list (map (\<lambda>(p, q). if pa_isCorrect p then q_points q else 0) (map (\<lambda>x. (?g x, x)) ?m))"
    by (simp only: processedAnswers_grade emitted_matched zip_map_self)
  also have "\<dots> = sum_list (map (\<lambda>q. if fst (gradeAnswer q (the (findAnswer as q)) 0)
                                        then q_points q else 0) ?m)"
    by (simp add: comp_def)
  also have "\<dots> = sum_list (map (earned as) ?m)"
    by (rule arg_cong [where f = sum_list], rule map_cong) (simp_all add: earned_matched)
  also have "\<dots> = score (grade as ?m)" by (simp only: score_grade)
  also have "\<dots> = score (grade as qs)" by (rule score_grade_matched)
  finally show ?thesis by simp
qed

lemma find_by_key:
  "distinct (map f xs) \<Longrightarrow> x \<in> set xs \<Longrightarrow> find (\<lambda>y. f y = f x) xs = Some x"
proof (induction xs)
  case Nil
  then show ?case by simp
next
  case (Cons y ys)
  show ?case
  proof (cases "y = x")
    case True
    then show ?thesis by simp
  next
    case False
    with Cons.prems have x: "x \<in> set ys" by simp
    then have "f x \<in> f ` set ys" by (rule imageI)
    moreover from Cons.prems have "f y \<notin> f ` set ys" by simp
    ultimately have "f y \<noteq> f x" by metis
    moreover from Cons.prems have "distinct (map f ys)" by simp
    ultimately show ?thesis using Cons.IH x by simp
  qed
qed

lemma map_enumerate_zip:
  assumes "length ps = length qs"
    and "\<And>i p q. (p, q) \<in> set (zip ps qs) \<Longrightarrow> F i p = G i p q"
  shows "map (\<lambda>(i, p). F i p) (enumerate n ps) =
         map (\<lambda>(i, p, q). G i p q) (enumerate n (zip ps qs))"
  using assms
proof (induction ps qs arbitrary: n rule: list_induct2)
  case Nil
  show ?case by simp
next
  case (Cons p ps q qs)
  have "F n p = G n p q" by (rule Cons.prems) simp
  moreover have "map (\<lambda>(i, p). F i p) (enumerate (Suc n) ps) =
         map (\<lambda>(i, p, q). G i p q) (enumerate (Suc n) (zip ps qs))"
    by (rule Cons.IH) (rule Cons.prems, simp)
  ultimately show ?case by simp
qed

lemma answersData_rows:
  "answersData aid rid pas =
     map (\<lambda>(i, p). \<lparr>a_id = aid i, a_answer = pa_answer p, a_questionId = pa_questionId p,
                     a_responseId = rid\<rparr>) (enumerate 0 pas)"
  by (simp only: answersData_def)

lemma submitResponse_questions:
  assumes "submitResponse d rid aid now link (errs, body) = (d', Inr res)"
  shows "db_questions d' = db_questions d"
proof -
  from submitResponse_InrD [OF assms] obtain ex r rows where
    "d' = d\<lparr>db_responses := r, db_answers := rows\<rparr>"
    by blast
  then show ?thesis by simp
qed

text \<open>
  C7, as the code has it: on a successful submission, when the identifiers of the stored
  questions are distinct and no stored answer already refers to the identifier of the new
  response, there is one processed answer for each matched question of the exam, in
  question order. The rows stored are built from the question identifier and the text of
  the processed answers alone: an identifier, the text, the question identifier and the
  response identifier, whatever the flags are. Each element of the \<open>answers\<close> array of
  the reply is the object with the members \<open>id\<close>, \<open>answer\<close>, \<open>questionId\<close>,
  \<open>responseId\<close> and \<open>question\<close>, the last one being the matched question with its
  \<open>id\<close>, \<open>question\<close>, \<open>type\<close>, \<open>correctAnswer\<close> and \<open>points\<close>; it has no member
  \<open>isCorrect\<close>. The flag of a processed answer decides only whether the points of its
  question are part of the score.
\<close>

theorem reply_answers_without_flag:
  assumes "submitResponse d rid aid now link (errs, body) = (d', Inr res)"
    and "\<forall>a\<in>set (db_answers d). a_responseId a \<noteq> rid"
    and "distinct (map q_id (db_questions d))"
  shows "\<exists>ex pas mqs. findActiveExam d link = Some ex \<and>
      pas = processedAnswers (grade (b_answers body) (examQuestions d ex)) \<and>
      mqs = filter (\<lambda>q. q_id q \<in> sa_questionId ` set (b_answers body)) (examQuestions d ex) \<and>
      map pa_questionId pas = map q_id mqs \<and>
      db_answers d' = db_answers d @ answersData aid rid pas \<and>
      answersData aid rid pas =
        map (\<lambda>(i, p). \<lparr>a_id = aid i, a_answer = pa_answer p, a_questionId = pa_questionId p,
                        a_responseId = rid\<rparr>) (enumerate 0 pas) \<and>
      (\<forall>f. answersData aid rid (map (pa_isCorrect_update f) pas) = answersData aid rid pas) \<and>
      replyAnswers res =
        map (\<lambda>(i, p, q).
               JObject [(''id'', JString (aid i)), (''answer'', JString (pa_answer p)),
                        (''questionId'', JString (pa_questionId p)),
                        (''responseId'', JString rid),
                        (''question'',
                           JObject [(''id'', JString (q_id q)),
                                    (''question'', JString (q_question q)),
                                    (''type'', JString (typeName (q_type q))),
                                    (''correctAnswer'',
                                       (case q_correctAnswer q of None \<Rightarrow> JNull
                                        | Some s \<Rightarrow> JString s)),
                                    (''points'', JNumber (q_points q))])])
          (enumerate 0 (zip pas mqs)) \<and>
      map (jsonField ''questionId'') (replyAnswers res) =
        map (\<lambda>p. Some (JString (pa_questionId p))) pas \<and>
      map (jsonField ''answer'') (replyAnswers res) =
        map (\<lambda>p. Some (JString (pa_answer p))) pas \<and>
      (\<forall>j\<in>set (replyAnswers res).
         jsonKeys j = [''id'', ''answer'', ''questionId'', ''responseId'', ''question''] \<and>
         jsonField ''isCorrect'' j = None) \<and>
      sr_score res =
        sum_list (map (\<lambda>(p, q). if pa_isCorrect p then q_points q else 0) (zip pas mqs))"
proof -
  from submitResponse_reply_answers [OF assms(1,2)] obtain ex where
    ex: "findActiveExam d link = Some ex"
    and da: "db_answers d' = db_answers d @
        answersData aid rid (processedAnswers (grade (b_answers body) (examQuestions d ex)))"
    and ra: "replyAnswers res =
        map (\<lambda>row. answerJson (answerIncluded questionSelect d' row))
          (answersData aid rid (processedAnswers (grade (b_answers body) (examQuestions d ex))))"
    by blast
  from submitResponse_InrD [OF assms(1)] ex have
    sc0: "sr_score res = score (grade (b_answers body) (examQuestions d ex))"
    by auto
  let ?as = "b_answers body"
  let ?qs = "examQuestions d ex"
  let ?pas = "processedAnswers (grade ?as ?qs)"
  let ?mqs = "filter (\<lambda>q. q_id q \<in> sa_questionId ` set ?as) ?qs"
  let ?g = "\<lambda>q. \<lparr>pa_questionId = q_id q, pa_answer = sa_answer (the (findAnswer ?as q)),
                pa_isCorrect = fst (gradeAnswer q (the (findAnswer ?as q)) 0)\<rparr>"
  let ?F = "\<lambda>i p. answerJson (answerIncluded questionSelect d'
               \<lparr>a_id = aid i, a_answer = pa_answer p, a_questionId = pa_questionId p,
                a_responseId = rid\<rparr>)"
  let ?G = "\<lambda>i p q.
               JObject [(''id'', JString (aid i)), (''answer'', JString (pa_answer p)),
                        (''questionId'', JString (pa_questionId p)),
                        (''responseId'', JString rid),
                        (''question'',
                           JObject [(''id'', JString (q_id q)),
                                    (''question'', JString (q_question q)),
                                    (''type'', JString (typeName (q_type q))),
                                    (''correctAnswer'',
                                       (case q_correctAnswer q of None \<Rightarrow> JNull
                                        | Some s \<Rightarrow> JString s)),
                                    (''points'', JNumber (q_points q))])]"
  have pas: "?pas = map ?g ?mqs"
    by (simp only: processedAnswers_grade emitted_matched)
  have ids: "map pa_questionId ?pas = map q_id ?mqs"
    by (simp only: pas) (simp add: comp_def)
  have len: "length ?pas = length ?mqs"
    by (simp only: pas length_map)
  have dq: "db_questions d' = db_questions d"
    by (rule submitResponse_questions [OF assms(1)])
  have each: "?F i p = ?G i p q" if "(p, q) \<in> set (zip ?pas ?mqs)" for i p q
  proof -
    from that have "(p, q) \<in> set (map (\<lambda>x. (?g x, x)) ?mqs)"
      by (simp only: pas zip_map_self)
    then have p: "p = ?g q" and q: "q \<in> set ?mqs" by auto
    from q have "q \<in> set ?qs" by simp
    then have "q \<in> set (db_questions d)" by (simp add: set_examQuestions)
    from find_by_key [OF assms(3) this]
    have f: "find (\<lambda>y. q_id y = pa_questionId p) (db_questions d') = Some q"
      by (simp add: p dq)
    show ?thesis
      by (simp add: answerJson_def answerIncluded_def f questionSelectJson_def
            questionSelect_def nullableString_def)
  qed
  have "replyAnswers res = map (\<lambda>(i, p). ?F i p) (enumerate 0 ?pas)"
    by (simp add: ra answersData_def split_def)
  also have "\<dots> = map (\<lambda>(i, p, q). ?G i p q) (enumerate 0 (zip ?pas ?mqs))"
    using len each by (rule map_enumerate_zip)
  finally have reply: "replyAnswers res =
      map (\<lambda>(i, p, q). ?G i p q) (enumerate 0 (zip ?pas ?mqs))" .
  have q: "map (jsonField ''questionId'') (replyAnswers res) =
      map (\<lambda>p. Some (JString (pa_questionId p))) ?pas"
  proof -
    have "map (jsonField ''questionId'') (replyAnswers res) =
        map (\<lambda>row. Some (JString (a_questionId row))) (answersData aid rid ?pas)"
      by (simp add: ra answerJson_fields answerIncluded_def comp_def)
    also have "\<dots> = map (\<lambda>i. Some (JString i)) (map a_questionId (answersData aid rid ?pas))"
      by (simp add: comp_def)
    also have "\<dots> = map (\<lambda>p. Some (JString (pa_questionId p))) ?pas"
      by (simp only: answersData_questionIds) (simp add: comp_def)
    finally show ?thesis .
  qed
  have a: "map (jsonField ''answer'') (replyAnswers res) =
      map (\<lambda>p. Some (JString (pa_answer p))) ?pas"
  proof -
    have "map (jsonField ''answer'') (replyAnswers res) =
        map (\<lambda>row. Some (JString (a_answer row))) (answersData aid rid ?pas)"
      by (simp add: ra answerJson_fields answerIncluded_def comp_def)
    also have "\<dots> = map (\<lambda>i. Some (JString i)) (map a_answer (answersData aid rid ?pas))"
      by (simp add: comp_def)
    also have "\<dots> = map (\<lambda>p. Some (JString (pa_answer p))) ?pas"
      by (simp only: answersData_answers) (simp add: comp_def)
    finally show ?thesis .
  qed
  have k: "\<forall>j\<in>set (replyAnswers res).
         jsonKeys j = [''id'', ''answer'', ''questionId'', ''responseId'', ''question''] \<and>
         jsonField ''isCorrect'' j = None"
    by (auto simp: ra answerJson_fields)
  have fl: "\<forall>f. answersData aid rid (map (pa_isCorrect_update f) ?pas) = answersData aid rid ?pas"
    by (intro allI answersData_flag)
  have sc: "sr_score res =
      sum_list (map (\<lambda>(p, q). if pa_isCorrect p then q_points q else 0) (zip ?pas ?mqs))"
    by (simp only: sc0) (rule score_by_flags)
  show ?thesis
    by (intro exI [of _ ex] exI [of _ ?pas] exI [of _ ?mqs] conjI refl ex ids da
          answersData_rows fl reply q a k sc)
qed

lemma gradedSubmit_success:
  assumes "\<not> isl (snd (gradedSubmit body))"
  shows "submitResponse sampleDbGraded ''r1'' sampleAnswerId 7 ''s1'' ([], body) =
           (fst (gradedSubmit body), Inr (projr (snd (gradedSubmit body))))"
  using assms by (simp add: gradedSubmit_def prod_eq_iff)

text \<open>
  The sample exam with both questions answered, on the database that already holds the
  answer of an earlier response.
\<close>

theorem reply_answers_without_flag_witness:
  "replyAnswers (projr (snd (gradedSubmit (sampleSubmission [(''q1'', ''B''), (''q2'', ''text'')])))) =
     [JObject [(''id'', JString ''n0''), (''answer'', JString ''B''),
               (''questionId'', JString ''q1''), (''responseId'', JString ''r1''),
               (''question'',
                  JObject [(''id'', JString ''q1''), (''question'', JString ''pick''),
                           (''type'', JString ''MULTIPLE_CHOICE''),
                           (''correctAnswer'', JString ''B''), (''points'', JNumber 10)])],
      JObject [(''id'', JString ''n1''), (''answer'', JString ''text''),
               (''questionId'', JString ''q2''), (''responseId'', JString ''r1''),
               (''question'',
                  JObject [(''id'', JString ''q2''), (''question'', JString ''write''),
                           (''type'', JString ''ESSAY''),
                           (''correctAnswer'', JNull), (''points'', JNumber 5)])]] \<and>
   map (jsonField ''isCorrect'')
     (replyAnswers (projr (snd (gradedSubmit (sampleSubmission [(''q1'', ''B''), (''q2'', ''text'')]))))) =
     [None, None] \<and>
   sr_score (projr (snd (gradedSubmit (sampleSubmission [(''q1'', ''B''), (''q2'', ''text'')])))) = 10 \<and>
   db_answers (fst (gradedSubmit (sampleSubmission [(''q1'', ''B''), (''q2'', ''text'')]))) =
     [\<lparr>a_id = ''a0'', a_answer = ''B'', a_questionId = ''q1'', a_responseId = ''r0''\<rparr>,
      \<lparr>a_id = ''n0'', a_answer = ''B'', a_questionId = ''q1'', a_responseId = ''r1''\<rparr>,
      \<lparr>a_id = ''n1'', a_answer = ''text'', a_questionId = ''q2'', a_responseId = ''r1''\<rparr>]"
proof -
  let ?body = "sampleSubmission [(''q1'', ''B''), (''q2'', ''text'')]"
  let ?res = "projr (snd (gradedSubmit ?body))"
  let ?d' = "fst (gradedSubmit ?body)"
  have ok: "\<not> isl (snd (gradedSubmit ?body))"
    by code_simp
  have fk: "\<forall>a\<in>set (db_answers sampleDbGraded). a_responseId a \<noteq> ''r1''"
    by (simp add: sampleDbGraded_def)
  have pk: "distinct (map q_id (db_questions sampleDbGraded))"
    by (simp add: sampleDbGraded_def sampleQ1_def sampleQ2_def)
  have found: "findActiveExam sampleDbGraded ''s1'' = Some sampleExam"
    by (simp add: findActiveExam_def sampleDbGraded_def sampleExam_def)
  have qs: "examQuestions sampleDbGraded sampleExam = [sampleQ1, sampleQ2]"
    by (simp add: examQuestions_def sampleDbGraded_def sampleExam_def sampleQ1_def sampleQ2_def)
  have pv: "processedAnswers (grade (b_answers ?body) (examQuestions sampleDbGraded sampleExam)) =
      [\<lparr>pa_questionId = ''q1'', pa_answer = ''B'', pa_isCorrect = True\<rparr>,
       \<lparr>pa_questionId = ''q2'', pa_answer = ''text'', pa_isCorrect = False\<rparr>]"
    by code_simp
  have mv: "filter (\<lambda>q. q_id q \<in> sa_questionId ` set (b_answers ?body))
      (examQuestions sampleDbGraded sampleExam) = [sampleQ1, sampleQ2]"
    by (simp add: qs) (simp add: sampleSubmission_def sampleQ1_def sampleQ2_def)
  have old: "db_answers sampleDbGraded =
      [\<lparr>a_id = ''a0'', a_answer = ''B'', a_questionId = ''q1'', a_responseId = ''r0''\<rparr>]"
    by (simp add: sampleDbGraded_def)
  from reply_answers_without_flag [OF gradedSubmit_success [OF ok] fk pk]
  obtain ex pas mqs where
    ex: "findActiveExam sampleDbGraded ''s1'' = Some ex"
    and pas: "pas = processedAnswers (grade (b_answers ?body) (examQuestions sampleDbGraded ex))"
    and mqs: "mqs = filter (\<lambda>q. q_id q \<in> sa_questionId ` set (b_answers ?body))
        (examQuestions sampleDbGraded ex)"
    and da: "db_answers ?d' = db_answers sampleDbGraded @ answersData sampleAnswerId ''r1'' pas"
    and rows: "answersData sampleAnswerId ''r1'' pas =
        map (\<lambda>(i, p). \<lparr>a_id = sampleAnswerId i, a_answer = pa_answer p,
                        a_questionId = pa_questionId p, a_responseId = ''r1''\<rparr>) (enumerate 0 pas)"
    and reply: "replyAnswers ?res =
        map (\<lambda>(i, p, q).
               JObject [(''id'', JString (sampleAnswerId i)), (''answer'', JString (pa_answer p)),
                        (''questionId'', JString (pa_questionId p)),
                        (''responseId'', JString ''r1''),
                        (''question'',
                           JObject [(''id'', JString (q_id q)),
                                    (''question'', JString (q_question q)),
                                    (''type'', JString (typeName (q_type q))),
                                    (''correctAnswer'',
                                       (case q_correctAnswer q of None \<Rightarrow> JNull
                                        | Some s \<Rightarrow> JString s)),
                                    (''points'', JNumber (q_points q))])])
          (enumerate 0 (zip pas mqs))"
    and k: "\<forall>j\<in>set (replyAnswers ?res).
         jsonKeys j = [''id'', ''answer'', ''questionId'', ''responseId'', ''question''] \<and>
         jsonField ''isCorrect'' j = None"
    and sc: "sr_score ?res =
        sum_list (map (\<lambda>(p, q). if pa_isCorrect p then q_points q else 0) (zip pas mqs))"
    by blast
  have e: "ex = sampleExam" using ex found by simp
  have pas': "pas = [\<lparr>pa_questionId = ''q1'', pa_answer = ''B'', pa_isCorrect = True\<rparr>,
       \<lparr>pa_questionId = ''q2'', pa_answer = ''text'', pa_isCorrect = False\<rparr>]"
    using pas unfolding e pv .
  have mqs': "mqs = [sampleQ1, sampleQ2]"
    using mqs unfolding e mv .
  have r: "replyAnswers ?res =
     [JObject [(''id'', JString ''n0''), (''answer'', JString ''B''),
               (''questionId'', JString ''q1''), (''responseId'', JString ''r1''),
               (''question'',
                  JObject [(''id'', JString ''q1''), (''question'', JString ''pick''),
                           (''type'', JString ''MULTIPLE_CHOICE''),
                           (''correctAnswer'', JString ''B''), (''points'', JNumber 10)])],
      JObject [(''id'', JString ''n1''), (''answer'', JString ''text''),
               (''questionId'', JString ''q2''), (''responseId'', JString ''r1''),
               (''question'',
                  JObject [(''id'', JString ''q2''), (''question'', JString ''write''),
                           (''type'', JString ''ESSAY''),
                           (''correctAnswer'', JNull), (''points'', JNumber 5)])]]"
    unfolding reply pas' mqs'
    by (simp add: sampleAnswerId_def sampleQ1_def sampleQ2_def)
  have "map (jsonField ''isCorrect'') (replyAnswers ?res) = map (\<lambda>j. None) (replyAnswers ?res)"
    using k by (intro map_cong) simp_all
  also have "\<dots> = [None, None]" by (simp add: r)
  finally have f: "map (jsonField ''isCorrect'') (replyAnswers ?res) = [None, None]" .
  have s: "sr_score ?res = 10"
    unfolding sc pas' mqs' by (simp add: sampleQ1_def sampleQ2_def)
  have st: "db_answers ?d' =
     [\<lparr>a_id = ''a0'', a_answer = ''B'', a_questionId = ''q1'', a_responseId = ''r0''\<rparr>,
      \<lparr>a_id = ''n0'', a_answer = ''B'', a_questionId = ''q1'', a_responseId = ''r1''\<rparr>,
      \<lparr>a_id = ''n1'', a_answer = ''text'', a_questionId = ''q2'', a_responseId = ''r1''\<rparr>]"
  proof -
    have "answersData sampleAnswerId ''r1'' pas =
        [\<lparr>a_id = ''n0'', a_answer = ''B'', a_questionId = ''q1'', a_responseId = ''r1''\<rparr>,
         \<lparr>a_id = ''n1'', a_answer = ''text'', a_questionId = ''q2'', a_responseId = ''r1''\<rparr>]"
      by (simp only: rows) (simp add: pas' sampleAnswerId_def)
    then show ?thesis by (simp add: da old)
  qed
  show ?thesis using r f s st by (intro conjI)
qed

text \<open>
  C7 as stated fails: the flags computed for the two answers are true and false, the two
  elements of the reply have no member \<open>isCorrect\<close>, and the two rows stored hold an
  identifier, the text, the question and the response.
\<close>

theorem reply_flag_counterexample:
  "\<not> isl (snd (sampleSubmit (sampleSubmission [(''q1'', ''B''), (''q2'', ''text'')]))) \<and>
   map pa_isCorrect
     (processedAnswers (grade (b_answers (sampleSubmission [(''q1'', ''B''), (''q2'', ''text'')]))
        (examQuestions sampleDb sampleExam))) = [True, False] \<and>
   map (jsonField ''isCorrect'')
     (replyAnswers (projr (snd (sampleSubmit (sampleSubmission [(''q1'', ''B''), (''q2'', ''text'')]))))) =
     [None, None] \<and>
   db_answers (fst (sampleSubmit (sampleSubmission [(''q1'', ''B''), (''q2'', ''text'')]))) =
     [\<lparr>a_id = ''n0'', a_answer = ''B'', a_questionId = ''q1'', a_responseId = ''r1''\<rparr>,
      \<lparr>a_id = ''n1'', a_answer = ''text'', a_questionId = ''q2'', a_responseId = ''r1''\<rparr>]"
proof (intro conjI)
  show "\<not> isl (snd (sampleSubmit (sampleSubmission [(''q1'', ''B''), (''q2'', ''text'')])))"
    by code_simp
  show "map pa_isCorrect
     (processedAnswers (grade (b_answers (sampleSubmission [(''q1'', ''B''), (''q2'', ''text'')]))
        (examQuestions sampleDb sampleExam))) = [True, False]"
    by code_simp
  show "map (jsonField ''isCorrect'')
     (replyAnswers (projr (snd (sampleSubmit (sampleSubmission [(''q1'', ''B''), (''q2'', ''text'')]))))) =
     [None, None]"
    by code_simp
  show "db_answers (fst (sampleSubmit (sampleSubmission [(''q1'', ''B''), (''q2'', ''text'')]))) =
     [\<lparr>a_id = ''n0'', a_answer = ''B'', a_questionId = ''q1'', a_responseId = ''r1''\<rparr>,
      \<lparr>a_id = ''n1'', a_answer = ''text'', a_questionId = ''q2'', a_responseId = ''r1''\<rparr>]"
    by code_simp
qed

section \<open>The manual score override\<close>

lemma answerIncluded_questions:
  "db_questions d' = db_questions d \<Longrightarrow> answerIncluded sel d' = answerIncluded sel d"
  by (rule ext) (simp add: answerIncluded_def)

lemma updateScoreRoute_InrD:
  assumes "updateScoreRoute d authorId responseId newScore = (d', Inr updated)"
  shows "\<exists>r ex. find (\<lambda>r. r_id r = responseId) (db_responses d) = Some r \<and>
           find (\<lambda>e. e_id e = r_examId r) (db_exams d) = Some ex \<and>
           e_authorId ex = authorId \<and>
           d' = d\<lparr>db_responses :=
                   map (\<lambda>r. if r_id r = responseId then r\<lparr>r_score := Some newScore\<rparr> else r)
                     (db_responses d)\<rparr> \<and>
           updated = responseIncluded questionBrief d' (r\<lparr>r_score := Some newScore\<rparr>)"
  using assms
  by (auto simp: updateScoreRoute_def updateResponseScore_def Let_def
      split: option.splits if_splits)

lemma updateScoreRoute_authorized:
  assumes "find (\<lambda>r. r_id r = responseId) (db_responses d) = Some r"
    and "find (\<lambda>e. e_id e = r_examId r) (db_exams d) = Some ex"
    and "e_authorId ex = authorId"
  shows "updateScoreRoute d authorId responseId newScore =
           (d\<lparr>db_responses :=
                map (\<lambda>r. if r_id r = responseId then r\<lparr>r_score := Some newScore\<rparr> else r)
                  (db_responses d)\<rparr>,
            Inr (responseIncluded questionBrief
                   (d\<lparr>db_responses :=
                        map (\<lambda>r. if r_id r = responseId then r\<lparr>r_score := Some newScore\<rparr> else r)
                          (db_responses d)\<rparr>)
                   (r\<lparr>r_score := Some newScore\<rparr>)))"
  using assms by (simp add: updateScoreRoute_def updateResponseScore_def Let_def)

lemma sample_find_response:
  "find (\<lambda>r. r_id r = ''r0'') (db_responses sampleDbGraded) = Some sampleResponse"
  by (simp add: sampleDbGraded_def sampleResponse_def)

lemma sample_find_exam:
  "find (\<lambda>e. e_id e = r_examId sampleResponse) (db_exams sampleDbGraded) = Some sampleExam"
  by (simp add: sampleDbGraded_def sampleResponse_def sampleExam_def)

text \<open>
  C8: a successful score override leaves exams, questions and answers as they were and
  changes nothing in the responses but the \<open>score\<close> of the response with that
  identifier; the response returned is the stored one, with its total points and its
  answers, and the new score. And whenever the response exists and its exam belongs to
  the caller, any score from 0 upwards passes the validator and is written, with no
  comparison against the total points.
\<close>

theorem score_override_changes_score_only:
  "(updateScoreRoute d authorId responseId newScore = (d', Inr updated) \<longrightarrow>
      db_exams d' = db_exams d \<and> db_questions d' = db_questions d \<and>
      db_answers d' = db_answers d \<and>
      db_responses d' =
        map (\<lambda>r. if r_id r = responseId then r\<lparr>r_score := Some newScore\<rparr> else r)
          (db_responses d) \<and>
      map (\<lambda>r. r\<lparr>r_score := None\<rparr>) (db_responses d') =
        map (\<lambda>r. r\<lparr>r_score := None\<rparr>) (db_responses d) \<and>
      (\<exists>before. findResponseIncluded questionBrief d responseId = Some before \<and>
         updated = before\<lparr>ri_score := Some newScore\<rparr>)) \<and>
   (\<forall>r ex. find (\<lambda>r. r_id r = responseId) (db_responses d) = Some r \<and>
        find (\<lambda>e. e_id e = r_examId r) (db_exams d) = Some ex \<and>
        e_authorId ex = authorId \<and> 0 \<le> newScore \<longrightarrow>
        updateScoreValidation newScore = [] \<and>
        (\<exists>d2 u. updateScoreRoute d authorId responseId newScore = (d2, Inr u) \<and>
           ri_score u = Some newScore \<and> ri_totalPoints u = r_totalPoints r))"
proof (intro conjI impI allI)
  assume a: "updateScoreRoute d authorId responseId newScore = (d', Inr updated)"
  from updateScoreRoute_InrD [OF a] obtain r ex where
    r: "find (\<lambda>r. r_id r = responseId) (db_responses d) = Some r"
    and d': "d' = d\<lparr>db_responses :=
                   map (\<lambda>r. if r_id r = responseId then r\<lparr>r_score := Some newScore\<rparr> else r)
                     (db_responses d)\<rparr>"
    and u: "updated = responseIncluded questionBrief d' (r\<lparr>r_score := Some newScore\<rparr>)"
    by blast
  show "db_exams d' = db_exams d" by (simp add: d')
  show q: "db_questions d' = db_questions d" by (simp add: d')
  show an: "db_answers d' = db_answers d" by (simp add: d')
  show "db_responses d' =
        map (\<lambda>r. if r_id r = responseId then r\<lparr>r_score := Some newScore\<rparr> else r)
          (db_responses d)"
    by (simp add: d')
  show "map (\<lambda>r. r\<lparr>r_score := None\<rparr>) (db_responses d') =
        map (\<lambda>r. r\<lparr>r_score := None\<rparr>) (db_responses d)"
    by (simp add: d' comp_def if_distrib cong: if_cong)
  have "findResponseIncluded questionBrief d responseId =
      Some (responseIncluded questionBrief d r)"
    by (simp add: findResponseIncluded_def r)
  moreover have "updated = (responseIncluded questionBrief d r)\<lparr>ri_score := Some newScore\<rparr>"
    by (simp add: u responseIncluded_def an answerIncluded_questions [OF q])
  ultimately show "\<exists>before. findResponseIncluded questionBrief d responseId = Some before \<and>
         updated = before\<lparr>ri_score := Some newScore\<rparr>"
    by blast
next
  fix r ex
  assume h: "find (\<lambda>r. r_id r = responseId) (db_responses d) = Some r \<and>
        find (\<lambda>e. e_id e = r_examId r) (db_exams d) = Some ex \<and>
        e_authorId ex = authorId \<and> 0 \<le> newScore"
  then show "updateScoreValidation newScore = []"
    by (simp add: updateScoreValidation_def)
  from h have hr: "find (\<lambda>r. r_id r = responseId) (db_responses d) = Some r"
    and he: "find (\<lambda>e. e_id e = r_examId r) (db_exams d) = Some ex"
    and ha: "e_authorId ex = authorId"
    by simp_all
  note updateScoreRoute_authorized [OF hr he ha, of newScore]
  then show "\<exists>d2 u. updateScoreRoute d authorId responseId newScore = (d2, Inr u) \<and>
           ri_score u = Some newScore \<and> ri_totalPoints u = r_totalPoints r"
    by (simp add: responseIncluded_def)
qed

text \<open>A score of 20 written by the author on a response whose total is 15.\<close>

theorem score_override_changes_score_only_witness:
  "updateScoreValidation 20 = [] \<and>
   (\<exists>d2 u. updateScoreRoute sampleDbGraded ''t1'' ''r0'' 20 = (d2, Inr u) \<and>
      ri_score u = Some 20 \<and> ri_totalPoints u = 15 \<and>
      db_answers d2 = db_answers sampleDbGraded \<and>
      map (\<lambda>r. r\<lparr>r_score := None\<rparr>) (db_responses d2) =
        map (\<lambda>r. r\<lparr>r_score := None\<rparr>) (db_responses sampleDbGraded))"
proof -
  note t = score_override_changes_score_only
    [where d = sampleDbGraded and authorId = "''t1''" and responseId = "''r0''" and newScore = 20]
  have au: "e_authorId sampleExam = ''t1''" by (simp add: sampleExam_def)
  have tp: "r_totalPoints sampleResponse = 15" by (simp add: sampleResponse_def)
  from t [THEN conjunct2, rule_format, of sampleResponse sampleExam]
    sample_find_response sample_find_exam au
  obtain d2 u where
    v: "updateScoreValidation 20 = []"
    and run: "updateScoreRoute sampleDbGraded ''t1'' ''r0'' 20 = (d2, Inr u)"
    and sc: "ri_score u = Some 20" and tot: "ri_totalPoints u = r_totalPoints sampleResponse"
    by auto
  from t [where d' = d2 and updated = u, THEN conjunct1, rule_format, OF run]
  have frame: "db_answers d2 = db_answers sampleDbGraded"
    "map (\<lambda>r. r\<lparr>r_score := None\<rparr>) (db_responses d2) =
        map (\<lambda>r. r\<lparr>r_score := None\<rparr>) (db_responses sampleDbGraded)"
    by simp_all
  show ?thesis using v run sc tot tp frame by auto
qed

text \<open>
  C9, as the code has it: the override answers 404 \<open>Response not found\<close> both when the
  response does not exist and when its exam belongs to another user, and no failing call
  changes the database.
\<close>

theorem score_override_failures:
  "(find (\<lambda>r. r_id r = responseId) (db_responses d) = None \<longrightarrow>
      updateScoreRoute d authorId responseId newScore =
        (d, Inl \<lparr>status = 404, message = ''Response not found''\<rparr>)) \<and>
   (\<forall>r ex. find (\<lambda>r. r_id r = responseId) (db_responses d) = Some r \<and>
        find (\<lambda>e. e_id e = r_examId r) (db_exams d) = Some ex \<and>
        e_authorId ex \<noteq> authorId \<longrightarrow>
        updateScoreRoute d authorId responseId newScore =
          (d, Inl \<lparr>status = 404, message = ''Response not found''\<rparr>)) \<and>
   (\<forall>d' e. updateScoreRoute d authorId responseId newScore = (d', Inl e) \<longrightarrow> d' = d)"
  by (auto simp: updateScoreRoute_def updateResponseScore_def Let_def
      split: option.splits if_splits)

text \<open>A caller who is not the author, and a response that does not exist.\<close>

theorem score_override_failures_witness:
  "updateScoreRoute sampleDbGraded ''t2'' ''r0'' 20 =
     (sampleDbGraded, Inl \<lparr>status = 404, message = ''Response not found''\<rparr>) \<and>
   updateScoreRoute sampleDbGraded ''t1'' ''zz'' 20 =
     (sampleDbGraded, Inl \<lparr>status = 404, message = ''Response not found''\<rparr>)"
proof -
  have au: "e_authorId sampleExam \<noteq> ''t2''" by (simp add: sampleExam_def)
  have missing: "find (\<lambda>r. r_id r = ''zz'') (db_responses sampleDbGraded) = None"
    by (simp add: sampleDbGraded_def sampleResponse_def)
  have a: "updateScoreRoute sampleDbGraded ''t2'' ''r0'' 20 =
     (sampleDbGraded, Inl \<lparr>status = 404, message = ''Response not found''\<rparr>)"
    using score_override_failures
      [where d = sampleDbGraded and authorId = "''t2''" and responseId = "''r0''" and newScore = 20,
       THEN conjunct2, THEN conjunct1, rule_format, of sampleResponse sampleExam]
      sample_find_response sample_find_exam au
    by simp
  have b: "updateScoreRoute sampleDbGraded ''t1'' ''zz'' 20 =
     (sampleDbGraded, Inl \<lparr>status = 404, message = ''Response not found''\<rparr>)"
    using score_override_failures
      [where d = sampleDbGraded and authorId = "''t1''" and responseId = "''zz''" and newScore = 20,
       THEN conjunct1, rule_format, OF missing] .
  show ?thesis using a b by (rule conjI)
qed

text \<open>
  C9 as stated fails: for an existing response whose exam belongs to \<open>t1\<close>, the caller
  \<open>t2\<close> gets the reply 404 \<open>Response not found\<close>, which is a not-found failure and not
  an authorization failure.
\<close>

theorem override_authorization_counterexample:
  "find (\<lambda>r. r_id r = ''r0'') (db_responses sampleDbGraded) = Some sampleResponse \<and>
   find (\<lambda>e. e_id e = r_examId sampleResponse) (db_exams sampleDbGraded) = Some sampleExam \<and>
   e_authorId sampleExam \<noteq> ''t2'' \<and>
   snd (updateScoreRoute sampleDbGraded ''t2'' ''r0'' 20) =
     Inl \<lparr>status = 404, message = ''Response not found''\<rparr> \<and>
   errorKind \<lparr>status = 404, message = ''Response not found''\<rparr> = NotFound \<and>
   errorKind \<lparr>status = 404, message = ''Response not found''\<rparr> \<noteq> Authorization"
proof (intro conjI)
  show "find (\<lambda>r. r_id r = ''r0'') (db_responses sampleDbGraded) = Some sampleResponse"
    by (rule sample_find_response)
  show "find (\<lambda>e. e_id e = r_examId sampleResponse) (db_exams sampleDbGraded) = Some sampleExam"
    by (rule sample_find_exam)
  show "e_authorId sampleExam \<noteq> ''t2''" by (simp add: sampleExam_def)
  show "snd (updateScoreRoute sampleDbGraded ''t2'' ''r0'' 20) =
     Inl \<lparr>status = 404, message = ''Response not found''\<rparr>"
    by code_simp
  show "errorKind \<lparr>status = 404, message = ''Response not found''\<rparr> = NotFound"
    by (simp add: errorKind_def)
  show "errorKind \<lparr>status = 404, message = ''Response not found''\<rparr> \<noteq> Authorization"
    by (simp add: errorKind_def)
qed

end
